theory Spec2Isabelle
  imports Complex_Main "HOL-Library.Char_ord" "HOL-Library.List_Lexorder"
begin

section \<open>Python exceptions and outcomes\<close>

text \<open>
  An exception of the Python code is a value. The string is the message (or the site) of the
  raise. A call that mutates an object and may raise in the middle returns an
  \<open>outcome\<close>: the object as the call left it, together with the exception if
  one was raised.
\<close>

datatype error =
    IndexError string
  | ValueError string
  | KeyError string
  | AttributeError string
  | TypeError string
  | FileExistsError string

datatype 's outcome = Returns 's | Raises error 's

fun final_state :: "'s outcome \<Rightarrow> 's" where
  "final_state (Returns s) = s"
| "final_state (Raises e s) = s"

fun raised :: "'s outcome \<Rightarrow> error option" where
  "raised (Returns s) = None"
| "raised (Raises e s) = Some e"


section \<open>Select_ROI (src/bnpm/plotting_helpers.py)\<close>

text \<open>
  A point is the two-element list \<^verbatim>\<open>[event.xdata, event.ydata]\<close>; a polygon
  is a Python list of points. The coordinates are floats on which the class does no
  arithmetic of its own, so their type is a parameter \<open>'c\<close>.

  A boolean mask is a two-dimensional array, a list of rows.
\<close>

type_synonym 'c point = "'c \<times> 'c"
type_synonym 'c polygon = "'c point list"
type_synonym mask = "bool list list"

text \<open>
  A matplotlib mouse event: \<^verbatim>\<open>xdata\<close> and \<^verbatim>\<open>ydata\<close> are
  \<^verbatim>\<open>None\<close> when the pointer is not over the axes that show the image.
\<close>

record 'c mouse_event =
  xdata :: "'c option"
  ydata :: "'c option"

text \<open>
  The attributes of a \<^verbatim>\<open>Select_ROI\<close> object (the leading underscore of a
  private name is dropped).
  \<^item> \<open>img_input_shape\<close>: the shape of \<^verbatim>\<open>_img_input\<close>, the only
    property of the image the class reads.
  \<^item> \<open>img_current\<close>: what the figure shows, as the list of polygons drawn over a
    copy of the input image (empty: the plain image).
  \<^item> \<open>buttonRelease\<close>: whether the \<^verbatim>\<open>button_release_event\<close>
    connection made by the constructor is still registered on the canvas.
  \<^item> \<open>mask_frames\<close>: \<open>None\<close> until \<^verbatim>\<open>_disconnect_mpl\<close> creates the
    attribute.
  \<^item> \<open>shared\<close>: Python lists are objects. \<^verbatim>\<open>_disconnect_mpl\<close> appends the
    list object bound to \<^verbatim>\<open>_selected_points_last_ROI\<close> to
    \<^verbatim>\<open>selected_points\<close> without rebinding the attribute, so the last entries of
    \<^verbatim>\<open>selected_points\<close> can be that very object; \<open>shared\<close> counts them.
    A later \<^verbatim>\<open>append\<close> through \<^verbatim>\<open>_selected_points_last_ROI\<close>
    is seen through each of them.
\<close>

record 'c select_roi =
  img_input_shape :: "nat list"
  selected_points :: "'c polygon list"
  selected_points_last_ROI :: "'c polygon"
  completed_status :: bool
  img_current :: "'c polygon list"
  buttonRelease :: bool
  mask_frames :: "mask list option"
  shared :: nat

definition Select_ROI_init :: "nat list \<Rightarrow> 'c select_roi" where
  "Select_ROI_init image_shape =
     \<lparr> img_input_shape = image_shape,
       selected_points = [],
       selected_points_last_ROI = [],
       completed_status = False,
       img_current = [],
       buttonRelease = True,
       mask_frames = None,
       shared = 0 \<rparr>"

text \<open>
  \<^verbatim>\<open>self._selected_points_last_ROI.append(p)\<close>: the list object grows, and with it
  every entry of \<^verbatim>\<open>selected_points\<close> that is the same object.
\<close>

definition append_last_ROI :: "'c point \<Rightarrow> 'c select_roi \<Rightarrow> 'c select_roi" where
  "append_last_ROI p s =
     (let n = length (selected_points s) - shared s in
      s \<lparr> selected_points_last_ROI := selected_points_last_ROI s @ [p],
          selected_points :=
            take n (selected_points s) @ map (\<lambda>q. q @ [p]) (drop n (selected_points s)) \<rparr>)"

text \<open>
  \<^verbatim>\<open>_onclick\<close>. The early return on a missing coordinate comes first. The redraw
  (\<^verbatim>\<open>_poly_img\<close> for every completed polygon, then for the polygon in progress)
  happens from the second point on.
\<close>

definition onclick :: "'c select_roi \<Rightarrow> 'c mouse_event \<Rightarrow> 'c select_roi" where
  "onclick s event =
     (if xdata event = None \<or> ydata event = None then s
      else
        let s1 = append_last_ROI (the (xdata event), the (ydata event)) s in
        if length (selected_points_last_ROI s1) > 1
        then s1 \<lparr> img_current := selected_points s1 @ [selected_points_last_ROI s1] \<rparr>
        else s1)"

text \<open>
  The canvas calls the handler only while the connection is registered.
\<close>

definition button_release_event :: "'c select_roi \<Rightarrow> 'c mouse_event \<Rightarrow> 'c select_roi" where
  "button_release_event s event = (if buttonRelease s then onclick s event else s)"

text \<open>\<^verbatim>\<open>_new_ROI\<close>: the attribute is rebound to a fresh empty list.\<close>

definition new_ROI :: "'c select_roi \<Rightarrow> 'c select_roi" where
  "new_ROI s =
     s \<lparr> selected_points := selected_points s @ [selected_points_last_ROI s],
         selected_points_last_ROI := [],
         shared := 0 \<rparr>"

subsection \<open>Rasterising: the loop of \<^verbatim>\<open>_disconnect_mpl\<close>\<close>

text \<open>
  \<^verbatim>\<open>np.zeros((h, w))\<close> followed by \<^verbatim>\<open>astype(np.bool)\<close>: every pixel false.
  (\<^verbatim>\<open>np.bool\<close> is read as the alias of \<^verbatim>\<open>bool\<close> that NumPy had
  before version 1.24.)
\<close>

definition zeros :: "nat \<Rightarrow> nat \<Rightarrow> mask" where
  "zeros h w = replicate h (replicate w False)"

text \<open>
  numpy index normalisation on an axis of length \<open>n\<close>: an index in \<open>[-n, n)\<close> is
  valid, a negative one counts from the end.
\<close>

definition norm_index :: "nat \<Rightarrow> int \<Rightarrow> nat option" where
  "norm_index n i =
     (if 0 \<le> i \<and> i < int n then Some (nat i)
      else if - int n \<le> i \<and> i < 0 then Some (nat (int n + i))
      else None)"

text \<open>
  \<^verbatim>\<open>mask_frame[pts_y, pts_x] = 1\<close> with two index arrays of equal length, here a
  list of (row, column) pairs: IndexError when an index is out of bounds.
\<close>

fun set_pixels :: "nat \<Rightarrow> nat \<Rightarrow> (int \<times> int) list \<Rightarrow> mask \<Rightarrow> error + mask" where
  "set_pixels h w [] m = Inr m"
| "set_pixels h w ((y, x) # rest) m =
     (case (norm_index h y, norm_index w x) of
        (Some r, Some c) \<Rightarrow> set_pixels h w rest (m[r := (m ! r)[c := True]])
      | _ \<Rightarrow> Inl (IndexError ''index is out of bounds''))"

text \<open>
  One pass of the loop body for one polygon. \<open>polygon\<close> stands for
  \<^verbatim>\<open>skimage.draw.polygon(r, c)\<close>, which returns the pixel coordinates inside the
  polygon (called without a shape, so it does not clip them). \<^verbatim>\<open>np.array(pts)\<close>
  of an empty list has shape \<open>(0,)\<close>, and \<^verbatim>\<open>pts[:, 1]\<close> on it raises
  IndexError; of a non-empty list of points it has shape \<open>(n, 2)\<close>.
  The shape of the image is read before the polygon is indexed.
\<close>

definition rasterize ::
  "('c list \<Rightarrow> 'c list \<Rightarrow> (int \<times> int) list) \<Rightarrow> nat list \<Rightarrow> 'c polygon \<Rightarrow> error + mask" where
  "rasterize polygon shape pts =
     (if length shape < 2 then Inl (IndexError ''tuple index out of range'')
      else if pts = [] then Inl (IndexError ''too many indices for array'')
      else set_pixels (shape ! 0) (shape ! 1) (polygon (map snd pts) (map fst pts))
             (zeros (shape ! 0) (shape ! 1)))"

text \<open>
  The loop over \<^verbatim>\<open>self.selected_points\<close>: \<open>acc\<close> is
  \<^verbatim>\<open>self.mask_frames\<close> so far. An exception leaves the masks appended so far.
\<close>

fun rasterize_loop ::
  "('c list \<Rightarrow> 'c list \<Rightarrow> (int \<times> int) list) \<Rightarrow> nat list \<Rightarrow> 'c polygon list \<Rightarrow> mask list
     \<Rightarrow> error option \<times> mask list" where
  "rasterize_loop polygon shape [] acc = (None, acc)"
| "rasterize_loop polygon shape (pts # rest) acc =
     (case rasterize polygon shape pts of
        Inl e \<Rightarrow> (Some e, acc)
      | Inr m \<Rightarrow> rasterize_loop polygon shape rest (acc @ [m]))"

text \<open>
  \<^verbatim>\<open>_disconnect_mpl\<close>: append the polygon in progress (the same list object),
  disconnect the handler, set the status, start an empty mask list and fill it.
\<close>

definition disconnect_mpl ::
  "('c list \<Rightarrow> 'c list \<Rightarrow> (int \<times> int) list) \<Rightarrow> 'c select_roi \<Rightarrow> 'c select_roi outcome" where
  "disconnect_mpl polygon s =
     (let s1 = s \<lparr> selected_points := selected_points s @ [selected_points_last_ROI s],
                   shared := shared s + 1,
                   buttonRelease := False,
                   completed_status := True \<rparr>;
          (err, masks) = rasterize_loop polygon (img_input_shape s1) (selected_points s1) []
      in case err of
           None \<Rightarrow> Returns (s1 \<lparr> mask_frames := Some masks \<rparr>)
         | Some e \<Rightarrow> Raises e (s1 \<lparr> mask_frames := Some masks \<rparr>))"

subsection \<open>Predicates and examples for the statements about Select_ROI\<close>

text \<open>A mask has \<open>h\<close> rows of \<open>w\<close> pixels each.\<close>

definition mask_dims :: "nat \<Rightarrow> nat \<Rightarrow> mask \<Rightarrow> bool" where
  "mask_dims h w m = (length m = h \<and> list_all (\<lambda>row. length row = w) m)"

text \<open>
  Every (row, column) pair is a valid numpy index into an array of shape \<open>(h, w)\<close>.
\<close>

definition in_bounds :: "nat \<Rightarrow> nat \<Rightarrow> (int \<times> int) list \<Rightarrow> bool" where
  "in_bounds h w ps = list_all (\<lambda>(y, x). - int h \<le> y \<and> y < int h \<and> - int w \<le> x \<and> x < int w) ps"

text \<open>
  The conditions under which the loop of \<^verbatim>\<open>_disconnect_mpl\<close> raises nothing:
  the image has at least two dimensions, no polygon is empty, and the pixels the polygon
  routine returns for it lie within the image.
\<close>

definition polygons_ok ::
  "('c list \<Rightarrow> 'c list \<Rightarrow> (int \<times> int) list) \<Rightarrow> nat list \<Rightarrow> 'c polygon list \<Rightarrow> bool" where
  "polygons_ok polygon shape ps =
     (2 \<le> length shape \<and>
      list_all (\<lambda>pts. pts \<noteq> [] \<and>
                 in_bounds (shape ! 0) (shape ! 1) (polygon (map snd pts) (map fst pts))) ps)"

text \<open>
  An instance of the polygon routine for the closed examples, on integer coordinates: it
  returns the vertices themselves.
\<close>

definition vertex_pixels :: "int list \<Rightarrow> int list \<Rightarrow> (int \<times> int) list" where
  "vertex_pixels r c = zip r c"

text \<open>
  Example states: a 2 by 2 image after one click at \<open>x = 0\<close>, \<open>y = 1\<close>, and the
  state the confirm action leaves from there.
\<close>

definition roi_clicked :: "int select_roi" where
  "roi_clicked = onclick (Select_ROI_init [2, 2]) \<lparr> xdata = Some 0, ydata = Some 1 \<rparr>"

definition roi_confirmed :: "int select_roi" where
  "roi_confirmed = final_state (disconnect_mpl vertex_pixels roi_clicked)"

section \<open>simple_cmap (src/bnpm/plotting_helpers.py)\<close>

text \<open>
  Floats are modelled by rationals: the positions \<^verbatim>\<open>(i+1) / (n_colors-1)\<close> and the
  colour channels are exact here, rounding is not modelled.

  An RGB colour is a triple of channels. A control point of one channel is a row
  \<open>(x, y0, y1)\<close> of matplotlib's segment data: at position \<open>x\<close> the channel
  arrives with value \<open>y0\<close> and leaves with value \<open>y1\<close>.
\<close>

type_synonym rgb = "rat \<times> rat \<times> rat"
type_synonym rgba = "rat \<times> rat \<times> rat \<times> rat"
type_synonym control_point = "rat \<times> rat \<times> rat"

text \<open>
  A \<^verbatim>\<open>LinearSegmentedColormap\<close>: its name, the segment data of the three channels
  (the dictionary \<^verbatim>\<open>cdict\<close> with the keys red, green and blue), and the colours
  for invalid, above-range and below-range values, \<open>None\<close> until they are set.
\<close>

record colormap =
  cmap_name :: string
  red :: "control_point list"
  green :: "control_point list"
  blue :: "control_point list"
  rgba_bad :: "rgb option"
  rgba_over :: "rgb option"
  rgba_under :: "rgb option"

text \<open>
  The constructor stores the segment data; it checks nothing (matplotlib checks the
  positions when the lookup table is first built, see \<open>create_lookup_table\<close>).
\<close>

definition LinearSegmentedColormap ::
  "string \<Rightarrow> control_point list \<Rightarrow> control_point list \<Rightarrow> control_point list \<Rightarrow> colormap" where
  "LinearSegmentedColormap name r g b =
     \<lparr> cmap_name = name, red = r, green = g, blue = b,
       rgba_bad = None, rgba_over = None, rgba_under = None \<rparr>"

text \<open>
  \<^verbatim>\<open>[colorConverter.to_rgb(c) for c in colors]\<close>. The conversion \<open>to_rgb\<close> of
  a colour specification (a name, a triple, ...) belongs to matplotlib and is a parameter; it
  raises ValueError on what is not a colour. The first failure ends the comprehension.
\<close>

fun to_rgb_list :: "('c \<Rightarrow> error + rgb) \<Rightarrow> 'c list \<Rightarrow> error + rgb list" where
  "to_rgb_list to_rgb [] = Inr []"
| "to_rgb_list to_rgb (c # cs) =
     (case to_rgb c of
        Inl e \<Rightarrow> Inl e
      | Inr v \<Rightarrow> (case to_rgb_list to_rgb cs of Inl e \<Rightarrow> Inl e | Inr vs \<Rightarrow> Inr (v # vs)))"

text \<open>
  The loop \<^verbatim>\<open>for i, (r, g, b) in enumerate(colors[1:])\<close>: \<open>i\<close> is the loop
  counter, the three lists are \<^verbatim>\<open>cdict['red']\<close>, \<^verbatim>\<open>cdict['green']\<close>
  and \<^verbatim>\<open>cdict['blue']\<close>.
\<close>

fun cdict_loop ::
  "nat \<Rightarrow> nat \<Rightarrow> rgb list
     \<Rightarrow> control_point list \<times> control_point list \<times> control_point list
     \<Rightarrow> control_point list \<times> control_point list \<times> control_point list" where
  "cdict_loop n_colors i [] cdict = cdict"
| "cdict_loop n_colors i ((r, g, b) # rest) (reds, greens, blues) =
     (let idx = (of_nat (i + 1) :: rat) / of_nat (n_colors - 1)
      in cdict_loop n_colors (i + 1) rest
           (reds @ [(idx, r, r)], greens @ [(idx, g, g)], blues @ [(idx, b, b)]))"

text \<open>
  \<^verbatim>\<open>cmap.set_bad\<close>, \<^verbatim>\<open>set_over\<close>, \<^verbatim>\<open>set_under\<close> convert their
  colour too, and raise on what is not a colour.
\<close>

definition set_bad :: "('c \<Rightarrow> error + rgb) \<Rightarrow> 'c \<Rightarrow> colormap \<Rightarrow> error + colormap" where
  "set_bad to_rgb c cm =
     (case to_rgb c of Inl e \<Rightarrow> Inl e | Inr v \<Rightarrow> Inr (cm \<lparr> rgba_bad := Some v \<rparr>))"

definition set_over :: "('c \<Rightarrow> error + rgb) \<Rightarrow> 'c \<Rightarrow> colormap \<Rightarrow> error + colormap" where
  "set_over to_rgb c cm =
     (case to_rgb c of Inl e \<Rightarrow> Inl e | Inr v \<Rightarrow> Inr (cm \<lparr> rgba_over := Some v \<rparr>))"

definition set_under :: "('c \<Rightarrow> error + rgb) \<Rightarrow> 'c \<Rightarrow> colormap \<Rightarrow> error + colormap" where
  "set_under to_rgb c cm =
     (case to_rgb c of Inl e \<Rightarrow> Inl e | Inr v \<Rightarrow> Inr (cm \<lparr> rgba_under := Some v \<rparr>))"

text \<open>
  \<^verbatim>\<open>simple_cmap(colors, under, over, bad, name)\<close>; the three colour arguments
  are \<open>c_under\<close>, \<open>c_over\<close> and \<open>c_bad\<close> here. The check on the number
  of colours comes before any conversion.
\<close>

definition simple_cmap ::
  "('c \<Rightarrow> error + rgb) \<Rightarrow> 'c list \<Rightarrow> 'c \<Rightarrow> 'c \<Rightarrow> 'c \<Rightarrow> string \<Rightarrow> error + colormap" where
  "simple_cmap to_rgb colors c_under c_over c_bad name =
     (let n_colors = length colors in
      if n_colors \<le> 1 then Inl (ValueError ''Must specify at least two colors'')
      else
        case to_rgb_list to_rgb colors of
          Inl e \<Rightarrow> Inl e
        | Inr cs \<Rightarrow>
            (case cs ! 0 of (r, g, b) \<Rightarrow>
               (case cdict_loop n_colors 0 (drop 1 cs) ([(0, r, r)], [(0, g, g)], [(0, b, b)]) of
                  (reds, greens, blues) \<Rightarrow>
                    (case set_bad to_rgb c_bad (LinearSegmentedColormap name reds greens blues) of
                       Inl e \<Rightarrow> Inl e
                     | Inr cm1 \<Rightarrow>
                         (case set_over to_rgb c_over cm1 of
                            Inl e \<Rightarrow> Inl e
                          | Inr cm2 \<Rightarrow> set_under to_rgb c_under cm2)))))"

subsection \<open>Evaluating a colormap (matplotlib)\<close>

text \<open>
  What matplotlib does when a \<^verbatim>\<open>LinearSegmentedColormap\<close> is called on a float:
  it builds, per channel, a lookup table of \<open>N = 256\<close> entries from the segment data
  (\<^verbatim>\<open>_create_lookup_table\<close>, with gamma 1) and indexes it. This is the library's
  behaviour, written out from its documented algorithm, not code of the repository.

  \<^verbatim>\<open>np.searchsorted(x, v)\<close> on an increasing array: the number of entries below
  \<open>v\<close>.
\<close>

definition searchsorted :: "rat list \<Rightarrow> rat \<Rightarrow> nat" where
  "searchsorted xs v = length (takeWhile (\<lambda>x. x < v) xs)"

definition clip01 :: "rat \<Rightarrow> rat" where
  "clip01 v = max 0 (min 1 v)"

text \<open>
  Entry \<open>i\<close> (\<open>0 < i < N - 1\<close>) of the table: linear interpolation between the
  control points around position \<open>i\<close> of \<open>N - 1\<close>.
\<close>

definition lut_entry :: "nat \<Rightarrow> control_point list \<Rightarrow> nat \<Rightarrow> rat" where
  "lut_entry N data i =
     (let x = map (\<lambda>p. fst p * of_nat (N - 1)) data;
          y0 = map (\<lambda>p. fst (snd p)) data;
          y1 = map (\<lambda>p. snd (snd p)) data;
          ind = searchsorted x (of_nat i);
          distance = (of_nat i - x ! (ind - 1)) / (x ! ind - x ! (ind - 1))
      in distance * (y0 ! ind - y1 ! (ind - 1)) + y1 ! (ind - 1))"

definition create_lookup_table :: "nat \<Rightarrow> control_point list \<Rightarrow> error + rat list" where
  "create_lookup_table N data =
     (if data = [] then Inl (ValueError ''data must have shape (n, 3)'')
      else if fst (hd data) \<noteq> 0 \<or> fst (last data) \<noteq> 1
      then Inl (ValueError ''data mapping points must start with x=0 and end with x=1'')
      else if \<not> sorted (map fst data)
      then Inl (ValueError ''data mapping points must have x in increasing order'')
      else if N = 1 then Inr [clip01 (fst (snd (last data)))]
      else Inr (map clip01
             ([snd (snd (hd data))] @ map (lut_entry N data) [1 ..< N - 1]
              @ [fst (snd (last data))])))"

text \<open>
  Calling the colormap on a float \<open>X\<close>: below 0 the under colour, above 1 the over
  colour (the first and the last entry of the table when they were not set), otherwise
  entry \<open>int(X * N)\<close>, with \<open>X = 1\<close> mapped to the last entry. The result is RGBA
  with alpha 1. (NaN, which selects the bad colour, is not a rational.)
\<close>

definition cmap_N :: nat where
  "cmap_N = 256"

definition cmap_call :: "colormap \<Rightarrow> rat \<Rightarrow> error + rgba" where
  "cmap_call cm X =
     (case create_lookup_table cmap_N (red cm) of Inl e \<Rightarrow> Inl e | Inr lr \<Rightarrow>
      case create_lookup_table cmap_N (green cm) of Inl e \<Rightarrow> Inl e | Inr lg \<Rightarrow>
      case create_lookup_table cmap_N (blue cm) of Inl e \<Rightarrow> Inl e | Inr lb \<Rightarrow>
        (let entry = (\<lambda>i. (lr ! i, lg ! i, lb ! i, 1)) in
         if X < 0 then
           (case rgba_under cm of Some (r, g, b) \<Rightarrow> Inr (r, g, b, 1) | None \<Rightarrow> Inr (entry 0))
         else if X > 1 then
           (case rgba_over cm of Some (r, g, b) \<Rightarrow> Inr (r, g, b, 1)
            | None \<Rightarrow> Inr (entry (cmap_N - 1)))
         else if X = 1 then Inr (entry (cmap_N - 1))
         else Inr (entry (nat \<lfloor>X * of_nat cmap_N\<rfloor>))))"

subsection \<open>Predicates and examples for the statements about simple_cmap\<close>

text \<open>The positions of a channel's control points.\<close>

definition positions :: "control_point list \<Rightarrow> rat list" where
  "positions data = map fst data"

text \<open>
  Every entry of a list is a colour the conversion accepts.
\<close>

definition all_colors :: "('c \<Rightarrow> error + rgb) \<Rightarrow> 'c list \<Rightarrow> bool" where
  "all_colors to_rgb cs = list_all (\<lambda>c. case to_rgb c of Inl e \<Rightarrow> False | Inr v \<Rightarrow> True) cs"

text \<open>A colour whose channels lie between 0 and 1, as \<^verbatim>\<open>to_rgb\<close> returns them.\<close>

definition unit_rgb :: "rgb \<Rightarrow> bool" where
  "unit_rgb c = (case c of (r, g, b) \<Rightarrow> 0 \<le> r \<and> r \<le> 1 \<and> 0 \<le> g \<and> g \<le> 1 \<and> 0 \<le> b \<and> b \<le> 1)"

text \<open>
  An instance of the conversion for the closed examples: a colour specification is a
  triple of channels, accepted when each lies between 0 and 1.
\<close>

definition to_rgb_triple :: "rgb \<Rightarrow> error + rgb" where
  "to_rgb_triple c =
     (if unit_rgb c then Inr c else Inl (ValueError ''RGBA values should be within 0-1 range''))"

text \<open>
  A list of positions that starts at 0, ends at 1 and increases strictly.
\<close>

definition increasing_0_1 :: "rat list \<Rightarrow> bool" where
  "increasing_0_1 xs = (xs \<noteq> [] \<and> hd xs = 0 \<and> last xs = 1 \<and> sorted_wrt (<) xs)"

text \<open>The positions \<open>k / (n - 1)\<close> for \<open>k = 0, ..., n - 1\<close>.\<close>

definition even_positions :: "nat \<Rightarrow> rat list" where
  "even_positions n = map (\<lambda>k. of_nat k / of_nat (n - 1)) [0 ..< n]"

text \<open>Example colours.\<close>

definition white :: rgb where "white = (1, 1, 1)"

definition pure_red :: rgb where "pure_red = (1, 0, 0)"

definition black :: rgb where "black = (0, 0, 0)"

definition grey :: rgb where "grey = (1 / 2, 1 / 2, 1 / 2)"

section \<open>Hierarchical files (src/h5_handling.py)\<close>

subsection \<open>Python values and HDF5 objects\<close>

text \<open>
  A value handed to the writer is a \<^verbatim>\<open>dict\<close> or anything else. A dict is its list
  of items in insertion order (the order of \<^verbatim>\<open>dict_obj.items()\<close>); its keys are
  strings. A value that is not a dict is a leaf, of type \<open>'v\<close>. Whether h5py can
  store a leaf as a dataset (a numeric array or a string can be stored, \<^verbatim>\<open>None\<close>
  or an arbitrary object cannot) is a predicate \<open>storable\<close>, a parameter of the
  functions that write. A dataset holds the data it was created with.

  An object of an HDF5 file is a dataset or a group. A group is the list of its links
  (name, object) in the order of their creation. The file itself is its root group.
\<close>

datatype 'v pyval = Leaf 'v | Dict "(string \<times> 'v pyval) list"

datatype 'v h5node = Dataset 'v | Group "(string \<times> 'v h5node) list"

subsection \<open>HDF5 path names\<close>

text \<open>
  A name is a path: components separated by slashes. Repeated slashes count as one, a
  component \<^verbatim>\<open>.\<close> stands for the group itself, and a name that starts with a slash
  is resolved from the root of the file, any other name from the group it is given to.
\<close>

fun split_slash :: "string \<Rightarrow> string list" where
  "split_slash [] = [[]]"
| "split_slash (c # cs) =
     (if c = CHR ''/'' then [] # split_slash cs
      else (case split_slash cs of
              w # ws \<Rightarrow> (c # w) # ws
            | [] \<Rightarrow> [[c]]))"

definition components :: "string \<Rightarrow> string list" where
  "components name = filter (\<lambda>c. c \<noteq> [] \<and> c \<noteq> ''.'') (split_slash name)"

definition is_absolute :: "string \<Rightarrow> bool" where
  "is_absolute name = (case name of [] \<Rightarrow> False | c # cs \<Rightarrow> c = CHR ''/'')"

text \<open>
  A group object of h5py (a \<^verbatim>\<open>Group\<close> or the \<^verbatim>\<open>File\<close>) is a handle: the
  path of the group from the root, as components. The path a name denotes when it is given
  to the group with handle \<open>h\<close>:
\<close>

type_synonym handle = "string list"

definition resolve :: "handle \<Rightarrow> string \<Rightarrow> string list" where
  "resolve h name = (if is_absolute name then [] else h) @ components name"

subsection \<open>Reading and creating objects\<close>

fun lookup :: "'v h5node \<Rightarrow> string list \<Rightarrow> 'v h5node option" where
  "lookup n [] = Some n"
| "lookup (Dataset v) (c # p) = None"
| "lookup (Group cs) (c # p) =
     (case map_of cs c of None \<Rightarrow> None | Some n \<Rightarrow> lookup n p)"

text \<open>
  \<^verbatim>\<open>h5_obj[name]\<close> followed by a method of groups (\<^verbatim>\<open>create_group\<close>,
  \<^verbatim>\<open>create_dataset\<close>): KeyError when no object has that name, AttributeError when
  the object is a dataset, otherwise the handle of the group.
\<close>

definition getitem_group :: "'v h5node \<Rightarrow> handle \<Rightarrow> string \<Rightarrow> error + handle" where
  "getitem_group froot h name =
     (case lookup froot (resolve h name) of
        None \<Rightarrow> Inl (KeyError ''object does not exist'')
      | Some (Dataset v) \<Rightarrow> Inl (AttributeError ''Dataset object has no such method'')
      | Some (Group cs) \<Rightarrow> Inr (resolve h name))"

text \<open>The object a chain of new groups ends in: the groups h5py creates on the way.\<close>

fun nest :: "string list \<Rightarrow> 'v h5node \<Rightarrow> 'v h5node" where
  "nest [] new = new"
| "nest (c # p) new = Group [(c, nest p new)]"

fun replace_child :: "string \<Rightarrow> 'v h5node \<Rightarrow> (string \<times> 'v h5node) list \<Rightarrow> (string \<times> 'v h5node) list" where
  "replace_child c n [] = []"
| "replace_child c n ((k, m) # cs) =
     (if k = c then (k, n) # cs else (k, m) # replace_child c n cs)"

text \<open>
  Linking a new object at a path below an object: groups that are missing on the way are
  created, the last component must be a new name (nothing is ever overwritten), and a
  dataset on the way is an error. (The class of the exception h5py raises for a dataset on
  the way differs between its versions; no statement below depends on it.)
\<close>

fun create_at :: "'v h5node \<Rightarrow> string list \<Rightarrow> 'v h5node \<Rightarrow> error + 'v h5node" where
  "create_at n [] new = Inl (ValueError ''name already exists'')"
| "create_at (Dataset v) (c # p) new = Inl (ValueError ''component of the path is not a group'')"
| "create_at (Group cs) (c # p) new =
     (case map_of cs c of
        None \<Rightarrow> Inr (Group (cs @ [(c, nest p new)]))
      | Some n \<Rightarrow>
          (case create_at n p new of
             Inl e \<Rightarrow> Inl e
           | Inr n' \<Rightarrow> Inr (Group (replace_child c n' cs))))"

text \<open>
  Creating an object under a name, as \<^verbatim>\<open>g.create_group(name)\<close> and
  \<^verbatim>\<open>g.create_dataset(name, data=v)\<close> do on the group with handle \<open>g\<close> of the
  file with root \<open>froot\<close>. A name without a component (empty, \<^verbatim>\<open>/\<close>,
  \<^verbatim>\<open>.\<close>) is refused.
\<close>

definition create_object :: "'v h5node \<Rightarrow> handle \<Rightarrow> string \<Rightarrow> 'v h5node \<Rightarrow> error + 'v h5node" where
  "create_object froot g name new =
     (if components name = [] then Inl (ValueError ''no name'')
      else create_at froot (resolve g name) new)"

definition create_group :: "'v h5node \<Rightarrow> handle \<Rightarrow> string \<Rightarrow> error + 'v h5node" where
  "create_group froot g name = create_object froot g name (Group [])"

text \<open>
  \<^verbatim>\<open>create_dataset\<close> raises TypeError for data h5py cannot store, and then creates
  nothing. (For a name that is a path, h5py 3 has made the groups on the way by then; h5py 2
  has not, and the model follows it. No statement below depends on the difference.)
\<close>

definition create_dataset ::
  "('v \<Rightarrow> bool) \<Rightarrow> 'v h5node \<Rightarrow> handle \<Rightarrow> string \<Rightarrow> 'v \<Rightarrow> error + 'v h5node" where
  "create_dataset storable froot g name v =
     (if \<not> storable v then Inl (TypeError ''Object dtype has no native HDF5 equivalent'')
      else create_object froot g name (Dataset v))"

subsection \<open>make_h5_tree and write_dict_to_h5\<close>

text \<open>
  \<^verbatim>\<open>make_h5_tree(dict_obj, h5_obj, group_string)\<close>; \<open>storable\<close> says which
  leaves h5py can store. The state is the root of the file
  \<open>h5_obj\<close> belongs to; \<open>h\<close> is the handle of \<open>h5_obj\<close>. The first argument is
  \<^verbatim>\<open>dict_obj.items()\<close>, consumed by the loop. The assignment
  \<^verbatim>\<open>group_string = '/'\<close> inside the loop holds for the rest of the loop. Both
  occurrences of \<^verbatim>\<open>h5_obj[group_string]\<close> in the dict branch denote the same group,
  whose handle is \<open>g\<close>. An exception ends the call; what was created before stays.
\<close>

fun make_h5_tree ::
  "('v \<Rightarrow> bool) \<Rightarrow> (string \<times> 'v pyval) list \<Rightarrow> handle \<Rightarrow> string \<Rightarrow> 'v h5node
     \<Rightarrow> 'v h5node outcome" where
  "make_h5_tree storable [] h group_string froot = Returns froot"
| "make_h5_tree storable ((key, Dict d) # rest) h group_string froot =
     (let group_string = (if group_string = [] then ''/'' else group_string) in
      case getitem_group froot h group_string of
        Inl e \<Rightarrow> Raises e froot
      | Inr g \<Rightarrow>
          (case create_group froot g key of
             Inl e \<Rightarrow> Raises e froot
           | Inr froot1 \<Rightarrow>
               (case make_h5_tree storable d g (group_string @ ''/'' @ key) froot1 of
                  Raises e froot2 \<Rightarrow> Raises e froot2
                | Returns froot2 \<Rightarrow> make_h5_tree storable rest h group_string froot2)))"
| "make_h5_tree storable ((key, Leaf v) # rest) h group_string froot =
     (let group_string = (if group_string = [] then ''/'' else group_string) in
      case getitem_group froot h group_string of
        Inl e \<Rightarrow> Raises e froot
      | Inr g \<Rightarrow>
          (case create_dataset storable froot g key v of
             Inl e \<Rightarrow> Raises e froot
           | Inr froot1 \<Rightarrow> make_h5_tree storable rest h group_string froot1))"

text \<open>
  The file system: the paths that exist, and for an HDF5 file its root group.
\<close>

datatype 'v fs_entry = H5File "'v h5node" | OtherFile

type_synonym 'v filesystem = "string \<rightharpoonup> 'v fs_entry"

text \<open>
  The two values of \<^verbatim>\<open>write_mode\<close> the docstring admits: \<^verbatim>\<open>'w'\<close> (overwrite)
  and \<^verbatim>\<open>'w-'\<close> (do not overwrite), the default.
\<close>

datatype write_mode = W | W_minus

text \<open>
  \<^verbatim>\<open>h5py.File(path, mode)\<close> for these modes: \<^verbatim>\<open>'w'\<close> creates the file and
  truncates one that exists, \<^verbatim>\<open>'w-'\<close> fails when the path exists. The result is the
  root of the opened, empty file.
\<close>

definition h5py_File :: "'v filesystem \<Rightarrow> string \<Rightarrow> write_mode \<Rightarrow> error + 'v h5node" where
  "h5py_File fs path mode =
     (case mode of
        W \<Rightarrow> Inr (Group [])
      | W_minus \<Rightarrow>
          (if path \<in> dom fs then Inl (FileExistsError ''Unable to create file (file exists)'')
           else Inr (Group [])))"

text \<open>
  \<^verbatim>\<open>write_dict_to_h5(path_save, input_dict, write_mode)\<close>. Leaving the
  \<^verbatim>\<open>with\<close> block closes the file, also on an exception, so what
  \<^verbatim>\<open>make_h5_tree\<close> created is in the file system afterwards. The printing of the item
  tree (\<^verbatim>\<open>show_item_tree_pref\<close>) changes nothing in the file and is left out.
\<close>

definition write_dict_to_h5 ::
  "('v \<Rightarrow> bool) \<Rightarrow> 'v filesystem \<Rightarrow> string \<Rightarrow> (string \<times> 'v pyval) list \<Rightarrow> write_mode
     \<Rightarrow> 'v filesystem outcome" where
  "write_dict_to_h5 storable fs path_save input_dict mode =
     (case h5py_File fs path_save mode of
        Inl e \<Rightarrow> Raises e fs
      | Inr hf \<Rightarrow>
          (case make_h5_tree storable input_dict [] [] hf of
             Raises e froot \<Rightarrow> Raises e (fs(path_save \<mapsto> H5File froot))
           | Returns froot \<Rightarrow> Returns (fs(path_save \<mapsto> H5File froot))))"

subsection \<open>h5py_dataset_iterator\<close>

text \<open>
  \<^verbatim>\<open>g.keys()\<close> of a group enumerates the names of its links in increasing order of
  the names (HDF5 keeps the links of a group indexed by name), and \<^verbatim>\<open>g[key]\<close> is
  the object linked under the name.
\<close>

definition keys :: "(string \<times> 'v h5node) list \<Rightarrow> string list" where
  "keys cs = sort (map fst cs)"

lemma map_of_size_less:
  "map_of cs k = Some n \<Longrightarrow> size n < Suc (size_list (size_prod (\<lambda>_. 0) size) cs)"
  by (induction cs) (auto split: if_splits)

text \<open>
  \<^verbatim>\<open>h5py_dataset_iterator(g, prefix)\<close>, for the group with the links \<open>cs\<close>: the
  list of what the generator yields, each dataset (here its data) with its path.
\<close>

function h5py_dataset_iterator :: "(string \<times> 'v h5node) list \<Rightarrow> string \<Rightarrow> (string \<times> 'v) list" where
  "h5py_dataset_iterator cs prefix =
     concat (map (\<lambda>key.
        (case map_of cs key of
           None \<Rightarrow> []
         | Some (Dataset v) \<Rightarrow> [(prefix @ ''/'' @ key, v)]
         | Some (Group cs') \<Rightarrow> h5py_dataset_iterator cs' (prefix @ ''/'' @ key)))
      (keys cs))"
  by pat_completeness auto
termination
proof (relation "measure (\<lambda>(cs, prefix). size_list (size_prod (\<lambda>_. 0) size) cs)")
  show "wf (measure (\<lambda>(cs, prefix). size_list (size_prod (\<lambda>_. 0) size) cs))" by simp
next
  fix cs :: "(string \<times> 'v h5node) list" and prefix key :: string
    and n :: "'v h5node" and cs' :: "(string \<times> 'v h5node) list"
  assume "map_of cs key = Some n" "n = Group cs'"
  then show "((cs', prefix @ ''/'' @ key), (cs, prefix))
      \<in> measure (\<lambda>(cs, prefix). size_list (size_prod (\<lambda>_. 0) size) cs)"
    using map_of_size_less[of cs key n] by simp
qed

subsection \<open>show_group_items\<close>

text \<open>
  \<^verbatim>\<open>hObj\<close> is an HDF5 group (or file), given by its links, or a Python dict, given by
  its items. Iterating it gives its names, respectively its keys; indexing it gives an HDF5
  object, respectively a Python value.
\<close>

datatype 'v hobj = H5obj "(string \<times> 'v h5node) list" | PyDict "(string \<times> 'v pyval) list"

datatype 'v item = H5item "'v h5node" | PyItem "'v pyval"

definition hobj_iter :: "'v hobj \<Rightarrow> string list" where
  "hobj_iter hObj = (case hObj of H5obj cs \<Rightarrow> keys cs | PyDict d \<Rightarrow> map fst d)"

definition hobj_getitem :: "'v hobj \<Rightarrow> string \<Rightarrow> 'v item option" where
  "hobj_getitem hObj val =
     (case hObj of
        H5obj cs \<Rightarrow> map_option H5item (map_of cs val)
      | PyDict d \<Rightarrow> map_option PyItem (map_of d val))"

text \<open>
  How Python renders a leaf value, as parameters: \<open>shape_dtype v\<close> is the pair
  \<^verbatim>\<open>(str(v.shape), str(v.dtype))\<close> when \<open>v\<close> has both attributes,
  \<open>type_str v\<close> is \<^verbatim>\<open>str(type(v))\<close>, and \<open>dataset_shape_dtype v\<close> is the pair
  for a dataset that holds \<open>v\<close> (a dataset always has both attributes).
\<close>

record 'v py_repr =
  shape_dtype :: "'v \<Rightarrow> (string \<times> string) option"
  type_str :: "'v \<Rightarrow> string"
  dataset_shape_dtype :: "'v \<Rightarrow> string \<times> string"

text \<open>The tests of the loop body on \<^verbatim>\<open>hObj[val]\<close>.\<close>

fun is_h5py_Group :: "'v item \<Rightarrow> bool" where
  "is_h5py_Group (H5item (Group cs)) = True"
| "is_h5py_Group _ = False"

fun is_dict :: "'v item \<Rightarrow> bool" where
  "is_dict (PyItem (Dict d)) = True"
| "is_dict _ = False"

text \<open>
  \<^verbatim>\<open>hasattr(x, 'shape') and hasattr(x, 'dtype')\<close>, with the two renderings when it
  holds: a group has neither attribute, a dataset has both.
\<close>

fun item_shape_dtype :: "'v py_repr \<Rightarrow> 'v item \<Rightarrow> (string \<times> string) option" where
  "item_shape_dtype R (H5item (Group cs)) = None"
| "item_shape_dtype R (H5item (Dataset v)) = Some (dataset_shape_dtype R v)"
| "item_shape_dtype R (PyItem (Dict d)) = None"
| "item_shape_dtype R (PyItem (Leaf v)) = shape_dtype R v"

definition h5py_Group_type :: string where
  "h5py_Group_type = ''<class '' @ [CHR 0x27] @ ''h5py._hl.group.Group'' @ [CHR 0x27] @ ''>''"

definition dict_type :: string where
  "dict_type = ''<class '' @ [CHR 0x27] @ ''dict'' @ [CHR 0x27] @ ''>''"

definition Dataset_type :: string where
  "Dataset_type = ''<class '' @ [CHR 0x27] @ ''h5py._hl.dataset.Dataset'' @ [CHR 0x27] @ ''>''"

fun item_type :: "'v py_repr \<Rightarrow> 'v item \<Rightarrow> string" where
  "item_type R (H5item (Group cs)) = h5py_Group_type"
| "item_type R (H5item (Dataset v)) = Dataset_type"
| "item_type R (PyItem (Dict d)) = dict_type"
| "item_type R (PyItem (Leaf v)) = type_str R v"

text \<open>Decimal rendering of a natural number, for \<^verbatim>\<open>{ii+1}\<close>.\<close>

fun str_nat :: "nat \<Rightarrow> string" where
  "str_nat n =
     (if n < 10 then [''0123456789'' ! n]
      else str_nat (n div 10) @ [''0123456789'' ! (n mod 10)])"

text \<open>
  The lines one pass of the loop body prints for the item \<open>x = hObj[val]\<close> at index
  \<open>ii\<close>. The test for an h5py group is an \<^verbatim>\<open>if\<close> of its own; the
  \<^verbatim>\<open>if\<close> / \<^verbatim>\<open>else\<close> on \<^verbatim>\<open>dict\<close> follows it.
\<close>

definition show_item :: "'v py_repr \<Rightarrow> nat \<Rightarrow> string \<Rightarrow> 'v item \<Rightarrow> string list" where
  "show_item R ii val x =
     (if is_h5py_Group x then [str_nat (ii + 1) @ ''. '' @ val @ '':----------------''] else [])
     @ (if is_dict x then [str_nat (ii + 1) @ ''. '' @ val @ '':----------------'']
        else (case item_shape_dtype R x of
                Some (sh, dt) \<Rightarrow>
                  [str_nat (ii + 1) @ ''. '' @ val @ '':   shape='' @ sh @ '' , dtype='' @ dt]
              | None \<Rightarrow>
                  [str_nat (ii + 1) @ ''. '' @ val @ '':   type='' @ item_type R x]))"

text \<open>
  The loop \<^verbatim>\<open>for ii, val in enumerate(list(iter(hObj)))\<close> from index \<open>ii\<close> on;
  the result is the list of the lines printed. Every \<open>val\<close> comes from iterating
  \<open>hObj\<close>, so \<^verbatim>\<open>hObj[val]\<close> exists.
\<close>

fun show_loop :: "'v py_repr \<Rightarrow> 'v hobj \<Rightarrow> nat \<Rightarrow> string list \<Rightarrow> string list" where
  "show_loop R hObj ii [] = []"
| "show_loop R hObj ii (val # rest) =
     (case hobj_getitem hObj val of
        None \<Rightarrow> []
      | Some x \<Rightarrow> show_item R ii val x)
     @ show_loop R hObj (ii + 1) rest"

definition show_group_items :: "'v py_repr \<Rightarrow> 'v hobj \<Rightarrow> string list" where
  "show_group_items R hObj = show_loop R hObj 0 (hobj_iter hObj)"

subsection \<open>Predicates and examples for the statements about hierarchical files\<close>

text \<open>
  A key that is a plain name: not empty, not \<^verbatim>\<open>.\<close>, and without a slash. As an
  HDF5 name it has itself as its only component.
\<close>

definition simple_key :: "string \<Rightarrow> bool" where
  "simple_key k = (k \<noteq> [] \<and> k \<noteq> ''.'' \<and> CHR ''/'' \<notin> set k)"

text \<open>
  The items of a dict and of all dicts nested in it are well formed: every key is a plain
  name, and no key occurs twice in one dict (a Python dict has no two equal keys).
\<close>

fun wf_items :: "(string \<times> 'v pyval) list \<Rightarrow> bool" where
  "wf_items [] = True"
| "wf_items ((key, Dict d) # rest) =
     (simple_key key \<and> key \<notin> fst ` set rest \<and> wf_items d \<and> wf_items rest)"
| "wf_items ((key, Leaf v) # rest) =
     (simple_key key \<and> key \<notin> fst ` set rest \<and> wf_items rest)"

text \<open>Every leaf of a dict, at every level, is data h5py can store.\<close>

fun storable_items :: "('v \<Rightarrow> bool) \<Rightarrow> (string \<times> 'v pyval) list \<Rightarrow> bool" where
  "storable_items storable [] = True"
| "storable_items storable ((key, Dict d) # rest) =
     (storable_items storable d \<and> storable_items storable rest)"
| "storable_items storable ((key, Leaf v) # rest) =
     (storable v \<and> storable_items storable rest)"

text \<open>
  The 1:1 image of the items of a dict: a group for every nested dict, a dataset for every
  leaf, under the same keys and in the same order.
\<close>

fun h5_items :: "(string \<times> 'v pyval) list \<Rightarrow> (string \<times> 'v h5node) list" where
  "h5_items [] = []"
| "h5_items ((key, Dict d) # rest) = (key, Group (h5_items d)) # h5_items rest"
| "h5_items ((key, Leaf v) # rest) = (key, Dataset v) # h5_items rest"

definition h5_of :: "'v pyval \<Rightarrow> 'v h5node" where
  "h5_of val = (case val of Leaf v \<Rightarrow> Dataset v | Dict d \<Rightarrow> Group (h5_items d))"

text \<open>
  The object at a path replaced by a function of it; a path that leads nowhere changes
  nothing.
\<close>

fun modify_at :: "('v h5node \<Rightarrow> 'v h5node) \<Rightarrow> string list \<Rightarrow> 'v h5node \<Rightarrow> 'v h5node" where
  "modify_at f [] n = f n"
| "modify_at f (c # p) (Dataset v) = Dataset v"
| "modify_at f (c # p) (Group cs) =
     (case map_of cs c of
        None \<Rightarrow> Group cs
      | Some n \<Rightarrow> Group (replace_child c (modify_at f p n) cs))"

text \<open>
  The string \<open>gs\<close>, as the argument \<^verbatim>\<open>group_string\<close>, names the group at path
  \<open>p\<close>: it is empty (the root), or an absolute name with the components \<open>p\<close>.
\<close>

definition names_group :: "string \<Rightarrow> string list \<Rightarrow> bool" where
  "names_group gs p = (gs = [] \<and> p = [] \<or> is_absolute gs \<and> components gs = p)"

text \<open>
  A matching reader: groups back to dicts, datasets back to leaves, link by link.
\<close>

fun read_dict :: "(string \<times> 'v h5node) list \<Rightarrow> (string \<times> 'v pyval) list" where
  "read_dict [] = []"
| "read_dict ((name, Group cs) # rest) = (name, Dict (read_dict cs)) # read_dict rest"
| "read_dict ((name, Dataset v) # rest) = (name, Leaf v) # read_dict rest"

lemma map_of_size_less_py:
  "map_of d k = Some val \<Longrightarrow> size val < Suc (size_list (size_prod (\<lambda>_. 0) size) d)"
  by (induction d) (auto split: if_splits)

text \<open>
  What enumerating the datasets of the written file is expected to give, computed from the
  dict alone: every leaf with the path made of its keys, the keys of each dict taken in
  increasing order.
\<close>

function leaf_paths :: "(string \<times> 'v pyval) list \<Rightarrow> string \<Rightarrow> (string \<times> 'v) list" where
  "leaf_paths d prefix =
     concat (map (\<lambda>key.
        (case map_of d key of
           None \<Rightarrow> []
         | Some (Leaf v) \<Rightarrow> [(prefix @ ''/'' @ key, v)]
         | Some (Dict d') \<Rightarrow> leaf_paths d' (prefix @ ''/'' @ key)))
      (sort (map fst d)))"
  by pat_completeness auto
termination
proof (relation "measure (\<lambda>(d, prefix). size_list (size_prod (\<lambda>_. 0) size) d)")
  show "wf (measure (\<lambda>(d, prefix). size_list (size_prod (\<lambda>_. 0) size) d))" by simp
next
  fix d :: "(string \<times> 'v pyval) list" and prefix key :: string
    and val :: "'v pyval" and d' :: "(string \<times> 'v pyval) list"
  assume "map_of d key = Some val" "val = Dict d'"
  then show "((d', prefix @ ''/'' @ key), (d, prefix))
      \<in> measure (\<lambda>(d, prefix). size_list (size_prod (\<lambda>_. 0) size) d)"
    using map_of_size_less_py[of d key val] by simp
qed

declare h5py_dataset_iterator.simps [simp del]

declare leaf_paths.simps [simp del]

text \<open>
  Example dicts, files, and renderings. In the examples with leaves of type \<open>nat\<close>
  every leaf can be stored; in the example with optional leaves \<^verbatim>\<open>None\<close> cannot.
\<close>

definition all_storable :: "nat \<Rightarrow> bool" where
  "all_storable v = True"

definition not_None :: "nat option \<Rightarrow> bool" where
  "not_None v = (v \<noteq> None)"

text \<open>The dict \<^verbatim>\<open>{'a': None}\<close>.\<close>

definition none_dict :: "(string \<times> nat option pyval) list" where
  "none_dict = [(''a'', Leaf None)]"

definition example_dict :: "(string \<times> nat pyval) list" where
  "example_dict = [(''a'', Leaf 1), (''g'', Dict [(''x'', Leaf 2), (''e'', Dict [])]), (''b'', Leaf 3)]"

definition example_file :: "nat h5node" where
  "example_file = Group [(''old'', Group [(''data'', Dataset 7)])]"

definition example_fs :: "nat filesystem" where
  "example_fs = [''data.h5'' \<mapsto> H5File example_file]"

text \<open>A key that is a path below another key, which holds a leaf.\<close>

definition clash_dict :: "(string \<times> nat pyval) list" where
  "clash_dict = [(''a'', Leaf 1), (''a/b'', Leaf 2)]"

text \<open>A nested key that is an absolute path.\<close>

definition absolute_key_dict :: "(string \<times> nat pyval) list" where
  "absolute_key_dict = [(''g'', Dict [(''x'', Dict []), (''/x'', Dict [(''y'', Leaf 1)])])]"

text \<open>A key with a slash, and the nested dict that is written to the same file.\<close>

definition slash_key_dict :: "(string \<times> nat pyval) list" where
  "slash_key_dict = [(''a/b'', Leaf 1)]"

definition nested_dict :: "(string \<times> nat pyval) list" where
  "nested_dict = [(''a'', Dict [(''b'', Leaf 1)])]"

definition example_repr :: "nat py_repr" where
  "example_repr = \<lparr> shape_dtype = (\<lambda>v. None), type_str = (\<lambda>v. ''<class int>''),
     dataset_shape_dtype = (\<lambda>v. (''()'', ''int64'')) \<rparr>"

definition example_group :: "(string \<times> nat h5node) list" where
  "example_group = [(''b'', Dataset 1), (''a'', Group [(''z'', Dataset 2)])]"

section \<open>Properties of Select_ROI\<close>

subsection \<open>The rasterising loop\<close>

lemma norm_index_Some: "- int n \<le> i \<Longrightarrow> i < int n \<Longrightarrow> \<exists>r. norm_index n i = Some r \<and> r < n"
  by (auto simp: norm_index_def)

lemma norm_index_lt: "norm_index n i = Some r \<Longrightarrow> r < n"
  by (auto simp: norm_index_def split: if_splits)

lemma mask_dims_zeros: "mask_dims h w (zeros h w)"
  by (simp add: mask_dims_def zeros_def list_all_iff)

lemma mask_dims_update: "mask_dims h w m \<Longrightarrow> mask_dims h w (m[r := (m ! r)[c := True]])"
proof (cases "r < length m")
  case True
  assume "mask_dims h w m"
  with True show ?thesis
    by (auto simp: mask_dims_def list_all_iff dest!: set_update_subset_insert[THEN subsetD])
next
  case False
  assume "mask_dims h w m"
  moreover from False have "m[r := (m ! r)[c := True]] = m"
    by (intro list_update_beyond) simp
  ultimately show ?thesis by simp
qed

lemma set_pixels_dims: "set_pixels h w ps m = Inr m' \<Longrightarrow> mask_dims h w m \<Longrightarrow> mask_dims h w m'"
proof (induction ps arbitrary: m)
  case Nil
  then show ?case by simp
next
  case (Cons a ps)
  obtain y x where a: "a = (y, x)" by (cases a)
  from Cons.prems show ?case
    unfolding a by (auto split: option.splits intro!: Cons.IH mask_dims_update)
qed

lemma set_pixels_ok: "in_bounds h w ps \<Longrightarrow> \<exists>m'. set_pixels h w ps m = Inr m'"
proof (induction ps arbitrary: m)
  case Nil
  then show ?case by simp
next
  case (Cons a ps)
  obtain y x where a: "a = (y, x)" by (cases a)
  from Cons.prems have b: "- int h \<le> y" "y < int h" "- int w \<le> x" "x < int w" and r: "in_bounds h w ps"
    unfolding a by (auto simp: in_bounds_def)
  obtain r c where "norm_index h y = Some r" "norm_index w x = Some c"
    using norm_index_Some[OF b(1,2)] norm_index_Some[OF b(3,4)] by blast
  then show ?case unfolding a using Cons.IH[OF r] by simp
qed

lemma set_pixels_error: "set_pixels h w ps m = Inl e \<Longrightarrow> \<exists>msg. e = IndexError msg"
proof (induction ps arbitrary: m)
  case Nil
  then show ?case by simp
next
  case (Cons a ps)
  obtain y x where a: "a = (y, x)" by (cases a)
  from Cons.prems show ?case
    unfolding a by (auto split: option.splits dest: Cons.IH)
qed

lemma rasterize_error: "rasterize polygon shape pts = Inl e \<Longrightarrow> \<exists>msg. e = IndexError msg"
  by (auto simp: rasterize_def split: if_splits dest: set_pixels_error)

lemma rasterize_ok:
  assumes "2 \<le> length shape" "pts \<noteq> []"
    "in_bounds (shape ! 0) (shape ! 1) (polygon (map snd pts) (map fst pts))"
  shows "\<exists>m. rasterize polygon shape pts = Inr m \<and> mask_dims (shape ! 0) (shape ! 1) m"
proof -
  obtain m where m: "set_pixels (shape ! 0) (shape ! 1) (polygon (map snd pts) (map fst pts))
      (zeros (shape ! 0) (shape ! 1)) = Inr m"
    using set_pixels_ok[OF assms(3)] by blast
  from set_pixels_dims[OF m mask_dims_zeros] have "mask_dims (shape ! 0) (shape ! 1) m" .
  with m assms(1,2) show ?thesis by (simp add: rasterize_def)
qed

lemma rasterize_loop_ok:
  assumes "polygons_ok polygon shape ps" "list_all (mask_dims (shape ! 0) (shape ! 1)) acc"
  shows "\<exists>ms. rasterize_loop polygon shape ps acc = (None, ms) \<and>
           length ms = length acc + length ps \<and> list_all (mask_dims (shape ! 0) (shape ! 1)) ms"
  using assms
proof (induction ps arbitrary: acc)
  case Nil
  then show ?case by simp
next
  case (Cons pts ps)
  from Cons.prems(1) have sh: "2 \<le> length shape" and ne: "pts \<noteq> []"
    and ib: "in_bounds (shape ! 0) (shape ! 1) (polygon (map snd pts) (map fst pts))"
    and rest: "polygons_ok polygon shape ps"
    by (simp_all add: polygons_ok_def)
  obtain m where m: "rasterize polygon shape pts = Inr m" "mask_dims (shape ! 0) (shape ! 1) m"
    using rasterize_ok[of shape pts polygon] sh ne ib by blast
  have "list_all (mask_dims (shape ! 0) (shape ! 1)) (acc @ [m])"
    using Cons.prems(2) m(2) by simp
  from Cons.IH[OF rest this] m(1) show ?case by auto
qed

lemma rasterize_loop_empty_polygon:
  assumes "[] \<in> set ps"
  shows "\<exists>msg ms. rasterize_loop polygon shape ps acc = (Some (IndexError msg), ms) \<and>
           length ms < length acc + length ps"
  using assms
proof (induction ps arbitrary: acc)
  case Nil
  then show ?case by simp
next
  case (Cons pts ps)
  show ?case
  proof (cases "rasterize polygon shape pts")
    case (Inl e)
    then obtain msg where "e = IndexError msg"
      using rasterize_error by blast
    with Inl show ?thesis by simp
  next
    case (Inr m)
    then have "pts \<noteq> []" by (auto simp: rasterize_def split: if_splits)
    with Cons.prems have "[] \<in> set ps" by auto
    from Cons.IH[OF this, of "acc @ [m]"] Inr show ?thesis by auto
  qed
qed

lemma rasterize_loop_append_fail:
  assumes "polygons_ok polygon shape ps" "rasterize polygon shape pts = Inl e"
  shows "\<exists>ms. rasterize_loop polygon shape (ps @ pts # rest) acc = (Some e, acc @ ms) \<and>
           length ms = length ps"
  using assms
proof (induction ps arbitrary: acc)
  case Nil
  then show ?case by simp
next
  case (Cons q ps)
  from Cons.prems(1) have sh: "2 \<le> length shape" and ne: "q \<noteq> []"
    and ib: "in_bounds (shape ! 0) (shape ! 1) (polygon (map snd q) (map fst q))"
    and rest: "polygons_ok polygon shape ps"
    by (simp_all add: polygons_ok_def)
  obtain m where m: "rasterize polygon shape q = Inr m"
    using rasterize_ok[of shape q polygon] sh ne ib by blast
  from Cons.IH[OF rest Cons.prems(2), of "acc @ [m]"] obtain ms where
    "rasterize_loop polygon shape (ps @ pts # rest) (acc @ [m]) = (Some e, (acc @ [m]) @ ms)"
    "length ms = length ps" by blast
  with m show ?case by (intro exI[of _ "m # ms"]) simp
qed

lemma roi_clicked_eq:
  "roi_clicked = \<lparr> img_input_shape = [2, 2], selected_points = [],
     selected_points_last_ROI = [(0, 1)], completed_status = False, img_current = [],
     buttonRelease = True, mask_frames = None, shared = 0 \<rparr>"
  by (simp add: roi_clicked_def onclick_def Select_ROI_init_def append_last_ROI_def)

lemma roi_confirm1:
  "disconnect_mpl vertex_pixels roi_clicked = Returns
     \<lparr> img_input_shape = [2, 2], selected_points = [[(0, 1)]],
       selected_points_last_ROI = [(0, 1)], completed_status = True, img_current = [],
       buttonRelease = False, mask_frames = Some [[[False, False], [True, False]]], shared = 1 \<rparr>"
  by (simp add: roi_clicked_eq disconnect_mpl_def rasterize_def zeros_def norm_index_def
      vertex_pixels_def numeral_2_eq_2)

lemma roi_confirmed_eq:
  "roi_confirmed =
     \<lparr> img_input_shape = [2, 2], selected_points = [[(0, 1)]],
       selected_points_last_ROI = [(0, 1)], completed_status = True, img_current = [],
       buttonRelease = False, mask_frames = Some [[[False, False], [True, False]]], shared = 1 \<rparr>"
  by (simp add: roi_confirmed_def roi_confirm1)

lemma roi_confirm2:
  "disconnect_mpl vertex_pixels roi_confirmed = Returns
     \<lparr> img_input_shape = [2, 2], selected_points = [[(0, 1)], [(0, 1)]],
       selected_points_last_ROI = [(0, 1)], completed_status = True, img_current = [],
       buttonRelease = False,
       mask_frames = Some [[[False, False], [True, False]], [[False, False], [True, False]]],
       shared = 2 \<rparr>"
  by (simp add: roi_confirmed_eq disconnect_mpl_def rasterize_def zeros_def norm_index_def
      vertex_pixels_def numeral_2_eq_2)

subsection \<open>Claims about Select_ROI\<close>

text \<open>
  A click without data coordinates (the pointer is outside the axes) is ignored by
  \<^verbatim>\<open>_onclick\<close>: the object is returned as it was.
\<close>

lemma onclick_no_data_ignored:
  "xdata event = None \<or> ydata event = None \<Longrightarrow> onclick s event = s"
  by (simp add: onclick_def)

text \<open>
  A click with data coordinates is appended to the polygon in progress, whatever the
  coordinates and the shape of the image are: \<^verbatim>\<open>_onclick\<close> compares nothing with the
  image bounds.
\<close>

lemma onclick_with_data_appends:
  "xdata event = Some x \<Longrightarrow> ydata event = Some y \<Longrightarrow>
     selected_points_last_ROI (onclick s event) = selected_points_last_ROI s @ [(x, y)]"
  by (simp add: onclick_def append_last_ROI_def Let_def)

text \<open>
  C2. The comment in \<^verbatim>\<open>_onclick\<close> says that a click outside the image is ignored,
  but the test is only that a coordinate is missing. When the axes show more than the image
  (after zooming out or panning), a click beside the image has coordinates: on a 4 by 5 image
  the click at \<open>x = 100\<close>, \<open>y = -7\<close> is outside the image bounds, and
  \<^verbatim>\<open>_onclick\<close> appends it to the polygon in progress.
\<close>

theorem onclick_outside_image_appended:
  "selected_points_last_ROI
     (onclick (Select_ROI_init [4, 5]) \<lparr> xdata = Some (100 :: int), ydata = Some (- 7) \<rparr>)
     = [(100, - 7)]
   \<and> onclick (Select_ROI_init [4, 5]) \<lparr> xdata = Some (100 :: int), ydata = Some (- 7) \<rparr>
     \<noteq> Select_ROI_init [4, 5]
   \<and> button_release_event (Select_ROI_init [4, 5])
       \<lparr> xdata = Some (100 :: int), ydata = Some (- 7) \<rparr>
     = onclick (Select_ROI_init [4, 5]) \<lparr> xdata = Some (100 :: int), ydata = Some (- 7) \<rparr>"
  by (simp add: onclick_def append_last_ROI_def Select_ROI_init_def button_release_event_def)

text \<open>
  C4. While points are being collected (the handler is connected and the status is false),
  \<^verbatim>\<open>_new_ROI\<close> appends the polygon in progress to \<^verbatim>\<open>selected_points\<close>,
  resets the polygon in progress to the empty list, and leaves the handler connected and the
  status false.
\<close>

theorem new_ROI_pushes_polygon:
  assumes "buttonRelease s" "\<not> completed_status s"
  shows "selected_points (new_ROI s) = selected_points s @ [selected_points_last_ROI s]
       \<and> selected_points_last_ROI (new_ROI s) = []
       \<and> buttonRelease (new_ROI s) \<and> \<not> completed_status (new_ROI s)
       \<and> mask_frames (new_ROI s) = mask_frames s
       \<and> img_input_shape (new_ROI s) = img_input_shape s"
  using assms by (simp add: new_ROI_def)

text \<open>Witness for C4: the new-ROI action after one click.\<close>

theorem new_ROI_pushes_polygon_witness:
  "selected_points (new_ROI roi_clicked) = [[(0, 1)]]
     \<and> selected_points_last_ROI (new_ROI roi_clicked) = []
     \<and> buttonRelease (new_ROI roi_clicked) \<and> \<not> completed_status (new_ROI roi_clicked)"
  using new_ROI_pushes_polygon [of roi_clicked] by (simp add: roi_clicked_eq)

text \<open>
  C3, as amended. When the image has at least two dimensions, every completed polygon and the
  polygon in progress are non-empty and the polygon routine returns pixels inside the image,
  \<^verbatim>\<open>_disconnect_mpl\<close> returns, the status is true, the handler is disconnected, and
  \<^verbatim>\<open>mask_frames\<close> has one mask per entry of \<^verbatim>\<open>selected_points\<close>
  (the polygon in progress included), each with the first two dimensions of the image. A later
  click and a later new-ROI action leave \<^verbatim>\<open>mask_frames\<close> as it is.
\<close>

theorem disconnect_mpl_masks:
  assumes "polygons_ok polygon (img_input_shape s)
             (selected_points s @ [selected_points_last_ROI s])"
  shows "\<exists>s' ms. disconnect_mpl polygon s = Returns s'
       \<and> completed_status s' \<and> \<not> buttonRelease s'
       \<and> selected_points s' = selected_points s @ [selected_points_last_ROI s]
       \<and> mask_frames s' = Some ms
       \<and> length ms = length (selected_points s')
       \<and> list_all (mask_dims (img_input_shape s ! 0) (img_input_shape s ! 1)) ms
       \<and> mask_frames (button_release_event s' event) = Some ms
       \<and> mask_frames (onclick s' event) = Some ms
       \<and> mask_frames (new_ROI s') = Some ms"
proof -
  let ?sh = "img_input_shape s"
  let ?ps = "selected_points s @ [selected_points_last_ROI s]"
  obtain ms where ms: "rasterize_loop polygon ?sh ?ps [] = (None, ms)"
    "length ms = length ?ps" "list_all (mask_dims (?sh ! 0) (?sh ! 1)) ms"
    using rasterize_loop_ok[OF assms, of "[]"] by auto
  let ?s' = "s \<lparr> selected_points := ?ps, shared := shared s + 1, buttonRelease := False,
                 completed_status := True, mask_frames := Some ms \<rparr>"
  have r: "disconnect_mpl polygon s = Returns ?s'"
    using ms(1) by (simp add: disconnect_mpl_def)
  have "mask_frames (onclick ?s' event) = Some ms"
    by (simp add: onclick_def append_last_ROI_def Let_def)
  moreover have "mask_frames (button_release_event ?s' event) = Some ms"
    by (simp add: button_release_event_def)
  moreover have "mask_frames (new_ROI ?s') = Some ms"
    by (simp add: new_ROI_def)
  ultimately show ?thesis using r ms(2,3) by simp
qed

text \<open>Witness for C3: confirming after one click on a 2 by 2 image.\<close>

theorem disconnect_mpl_masks_witness:
  "polygons_ok vertex_pixels (img_input_shape roi_clicked)
     (selected_points roi_clicked @ [selected_points_last_ROI roi_clicked])
   \<and> disconnect_mpl vertex_pixels roi_clicked = Returns roi_confirmed
   \<and> selected_points roi_confirmed = [[(0, 1)]]
   \<and> mask_frames roi_confirmed = Some [[[False, False], [True, False]]]
   \<and> mask_frames (new_ROI roi_confirmed) = Some [[[False, False], [True, False]]]"
proof -
  have ok: "polygons_ok vertex_pixels (img_input_shape roi_clicked)
     (selected_points roi_clicked @ [selected_points_last_ROI roi_clicked])"
    by (simp add: roi_clicked_eq polygons_ok_def in_bounds_def vertex_pixels_def)
  have c: "disconnect_mpl vertex_pixels roi_clicked = Returns roi_confirmed
      \<and> selected_points roi_confirmed = [[(0, 1)]]
      \<and> mask_frames roi_confirmed = Some [[[False, False], [True, False]]]
      \<and> mask_frames (new_ROI roi_confirmed) = Some [[[False, False], [True, False]]]"
    by (simp add: roi_confirm1 roi_confirmed_eq new_ROI_def)
  from disconnect_mpl_masks [OF ok, of "\<lparr> xdata = None, ydata = None \<rparr>"] ok c
  show ?thesis by blast
qed

text \<open>
  Counterexample to C3 as stated: after a confirm action that returned, a second confirm action
  replaces \<^verbatim>\<open>mask_frames\<close> by a list with one more mask, and a new-ROI action
  makes \<^verbatim>\<open>selected_points\<close> longer than \<^verbatim>\<open>mask_frames\<close>.
\<close>

theorem mask_frames_not_immutable_counterexample:
  "raised (disconnect_mpl vertex_pixels roi_clicked) = None
   \<and> completed_status roi_confirmed
   \<and> mask_frames roi_confirmed = Some [[[False, False], [True, False]]]
   \<and> raised (disconnect_mpl vertex_pixels roi_confirmed) = None
   \<and> mask_frames (final_state (disconnect_mpl vertex_pixels roi_confirmed))
       = Some [[[False, False], [True, False]], [[False, False], [True, False]]]
   \<and> mask_frames (final_state (disconnect_mpl vertex_pixels roi_confirmed))
       \<noteq> mask_frames roi_confirmed
   \<and> length (selected_points (new_ROI roi_confirmed)) = 2
   \<and> length (the (mask_frames (new_ROI roi_confirmed))) = 1"
  by (simp add: roi_confirm1 roi_confirm2) (simp add: roi_confirmed_eq new_ROI_def)

text \<open>
  C10. When the confirm action runs while the polygon in progress is empty,
  \<^verbatim>\<open>_disconnect_mpl\<close> appends the empty polygon to
  \<^verbatim>\<open>selected_points\<close> and raises IndexError; \<^verbatim>\<open>mask_frames\<close> is left
  shorter than \<^verbatim>\<open>selected_points\<close>. When the polygons completed before rasterise,
  the exception is the one of \<^verbatim>\<open>pts[:, 1]\<close> on the empty array, and the masks of
  those polygons are all that \<^verbatim>\<open>mask_frames\<close> holds.
\<close>

theorem disconnect_mpl_empty_polygon_raises:
  assumes "selected_points_last_ROI s = []"
  shows "\<exists>msg s' ms. disconnect_mpl polygon s = Raises (IndexError msg) s'
       \<and> selected_points s' = selected_points s @ [[]]
       \<and> mask_frames s' = Some ms
       \<and> length ms < length (selected_points s')
       \<and> (polygons_ok polygon (img_input_shape s) (selected_points s) \<longrightarrow>
            msg = ''too many indices for array'' \<and> length ms = length (selected_points s))"
proof (cases "polygons_ok polygon (img_input_shape s) (selected_points s)")
  case True
  then have "rasterize polygon (img_input_shape s) [] = Inl (IndexError ''too many indices for array'')"
    by (simp add: rasterize_def polygons_ok_def)
  from rasterize_loop_append_fail[OF True this, of "[]" "[]"] obtain ms where
    "rasterize_loop polygon (img_input_shape s) (selected_points s @ [[]]) []
       = (Some (IndexError ''too many indices for array''), ms)" "length ms = length (selected_points s)"
    by auto
  with assms True show ?thesis by (simp add: disconnect_mpl_def)
next
  case False
  have "[] \<in> set (selected_points s @ [[]])" by simp
  from rasterize_loop_empty_polygon[OF this, of polygon "img_input_shape s" "[]"]
  obtain msg ms where
    "rasterize_loop polygon (img_input_shape s) (selected_points s @ [[]]) []
       = (Some (IndexError msg), ms)" "length ms < length (selected_points s @ [[]])"
    by auto
  with assms False show ?thesis by (simp add: disconnect_mpl_def)
qed

text \<open>Witness for C10: the confirm action on a fresh object.\<close>

theorem disconnect_mpl_empty_polygon_raises_witness:
  "selected_points_last_ROI (Select_ROI_init [2, 2] :: int select_roi) = []
   \<and> polygons_ok vertex_pixels [2, 2] []
   \<and> disconnect_mpl vertex_pixels (Select_ROI_init [2, 2])
      = Raises (IndexError ''too many indices for array'')
         \<lparr> img_input_shape = [2, 2], selected_points = [[]],
           selected_points_last_ROI = [], completed_status = True, img_current = [],
           buttonRelease = False, mask_frames = Some [], shared = 1 \<rparr>"
proof -
  have e: "selected_points_last_ROI (Select_ROI_init [2, 2] :: int select_roi) = []"
    by (simp add: Select_ROI_init_def)
  have ok: "polygons_ok vertex_pixels [2, 2] []"
    by (simp add: polygons_ok_def)
  from disconnect_mpl_empty_polygon_raises [OF e, of vertex_pixels] e ok show ?thesis
    by (simp add: Select_ROI_init_def disconnect_mpl_def rasterize_def)
qed

section \<open>Properties of simple_cmap\<close>

lemma to_rgb_list_ok:
  "all_colors to_rgb cs \<Longrightarrow> \<exists>vs. to_rgb_list to_rgb cs = Inr vs \<and> length vs = length cs"
proof (induction cs)
  case Nil
  then show ?case by simp
next
  case (Cons c cs)
  then show ?case by (auto simp: all_colors_def split: sum.splits)
qed

lemma cdict_loop_positions:
  "cdict_loop n i cs (R, G, B) = (R', G', B') \<Longrightarrow>
     positions R' = positions R @ map (\<lambda>k. of_nat (Suc k) / of_nat (n - 1)) [i ..< i + length cs]
   \<and> positions G' = positions G @ map (\<lambda>k. of_nat (Suc k) / of_nat (n - 1)) [i ..< i + length cs]
   \<and> positions B' = positions B @ map (\<lambda>k. of_nat (Suc k) / of_nat (n - 1)) [i ..< i + length cs]"
proof (induction cs arbitrary: i R G B)
  case Nil
  then show ?case by simp
next
  case (Cons c cs)
  obtain r g b where c: "c = (r, g, b)" by (cases c)
  have "i < i + length (c # cs)" by simp
  from upt_conv_Cons[OF this]
  have u: "[i ..< i + length (c # cs)] = i # [Suc i ..< Suc i + length cs]"
    by simp
  from Cons.prems have
    "cdict_loop n (Suc i) cs
       (R @ [(of_nat (Suc i) / of_nat (n - 1), r, r)], G @ [(of_nat (Suc i) / of_nat (n - 1), g, g)],
        B @ [(of_nat (Suc i) / of_nat (n - 1), b, b)]) = (R', G', B')"
    unfolding c by (simp add: Let_def)
  from Cons.IH[OF this] show ?case
    unfolding u by (simp add: positions_def)
qed

lemma even_positions_increasing: "2 \<le> n \<Longrightarrow> increasing_0_1 (even_positions n)"
proof -
  assume n: "2 \<le> n"
  then have pos: "(0::rat) < of_nat (n - 1)" by simp
  have "sorted_wrt (<) (even_positions n)"
    unfolding even_positions_def sorted_wrt_map
    by (rule sorted_wrt_mono_rel[of _ "(<)"]) (use pos in \<open>auto simp: divide_strict_right_mono\<close>)
  moreover from n have "even_positions n \<noteq> []" by (simp add: even_positions_def)
  moreover from n have "hd (even_positions n) = 0"
    by (simp add: even_positions_def hd_map upt_conv_Cons)
  moreover from n pos have "last (even_positions n) = 1"
    by (simp add: even_positions_def last_map)
  ultimately show ?thesis by (simp add: increasing_0_1_def)
qed

lemma even_positions_Suc:
  assumes "0 < n"
  shows "even_positions n = 0 # map (\<lambda>k. of_nat (Suc k) / of_nat (n - 1)) [0 ..< n - 1]"
proof -
  from assms have "[0 ..< n] = 0 # map Suc [0 ..< n - 1]"
    by (simp add: upt_conv_Cons map_Suc_upt)
  then show ?thesis by (simp add: even_positions_def comp_def)
qed

lemma simple_cmap_ok:
  assumes n: "2 \<le> length colors" and cs: "all_colors to_rgb colors"
    and aux: "all_colors to_rgb [c_bad, c_over, c_under]"
  shows "\<exists>cm. simple_cmap to_rgb colors c_under c_over c_bad name = Inr cm
       \<and> positions (red cm) = even_positions (length colors)
       \<and> positions (green cm) = even_positions (length colors)
       \<and> positions (blue cm) = even_positions (length colors)"
proof -
  obtain vs where vs: "to_rgb_list to_rgb colors = Inr vs" "length vs = length colors"
    using to_rgb_list_ok[OF cs] by blast
  obtain r g b where v0: "vs ! 0 = (r, g, b)" by (cases "vs ! 0")
  obtain R G B where loop:
    "cdict_loop (length colors) 0 (drop 1 vs) ([(0, r, r)], [(0, g, g)], [(0, b, b)]) = (R, G, B)"
    by (cases "cdict_loop (length colors) 0 (drop 1 vs) ([(0, r, r)], [(0, g, g)], [(0, b, b)])")
  from n have ne: "colors \<noteq> []" by (cases colors) simp_all
  then have n0: "0 < length colors" by simp
  have pos: "positions R = even_positions (length colors)"
    "positions G = even_positions (length colors)"
    "positions B = even_positions (length colors)"
    using cdict_loop_positions[OF loop] vs(2)
    by (simp_all add: even_positions_Suc[OF n0] positions_def)
  obtain vb vo vu where conv: "to_rgb c_bad = Inr vb" "to_rgb c_over = Inr vo" "to_rgb c_under = Inr vu"
    using aux by (auto simp: all_colors_def split: sum.splits)
  have "simple_cmap to_rgb colors c_under c_over c_bad name
      = Inr (LinearSegmentedColormap name R G B
               \<lparr> rgba_bad := Some vb, rgba_over := Some vo, rgba_under := Some vu \<rparr>)"
    using n ne vs(1) v0 loop conv
    by (simp add: simple_cmap_def set_bad_def set_over_def set_under_def)
  with pos show ?thesis by (simp add: LinearSegmentedColormap_def)
qed

lemma create_lookup_table_two_points:
  "\<exists>lut. create_lookup_table cmap_N [(0, a, a), (1, b, b)] = Inr lut
     \<and> lut ! 0 = clip01 a \<and> lut ! (cmap_N - 1) = clip01 b"
proof -
  let ?mid = "map (lut_entry cmap_N [(0, a, a), (1, b, b)]) [1 ..< cmap_N - 1]"
  have len: "length ?mid = cmap_N - 2" by simp
  have "create_lookup_table cmap_N [(0, a, a), (1, b, b)]
      = Inr (clip01 a # map clip01 ?mid @ [clip01 b])"
    by (simp add: create_lookup_table_def cmap_N_def)
  moreover have "(clip01 a # map clip01 ?mid @ [clip01 b]) ! (cmap_N - 1) = clip01 b"
    using len by (simp add: nth_append cmap_N_def)
  ultimately show ?thesis by simp
qed

lemma clip01_unit: "0 \<le> v \<Longrightarrow> v \<le> 1 \<Longrightarrow> clip01 v = v"
  by (simp add: clip01_def)

lemma example_colors_ok:
  "to_rgb_triple white = Inr white" "to_rgb_triple pure_red = Inr pure_red"
  "to_rgb_triple black = Inr black" "to_rgb_triple grey = Inr grey"
  by (simp_all add: to_rgb_triple_def unit_rgb_def white_def pure_red_def black_def grey_def)

subsection \<open>Claims about simple_cmap\<close>

text \<open>
  C7. With fewer than two colours \<^verbatim>\<open>simple_cmap\<close> raises
  \<^verbatim>\<open>ValueError('Must specify at least two colors')\<close> and returns no colormap. With at
  least two colours (each of them, and the under, over and bad colours, accepted by the colour
  conversion) it returns a colormap whose control points, in each channel, sit at the positions
  \<open>k / (n - 1)\<close>, which start at 0, end at 1 and increase.
\<close>

theorem simple_cmap_needs_two_colors:
  "(length colors \<le> 1 \<longrightarrow>
      simple_cmap to_rgb colors c_under c_over c_bad name
        = Inl (ValueError ''Must specify at least two colors''))
   \<and> (2 \<le> length colors \<and> all_colors to_rgb colors \<and> all_colors to_rgb [c_bad, c_over, c_under] \<longrightarrow>
      (\<exists>cm. simple_cmap to_rgb colors c_under c_over c_bad name = Inr cm
         \<and> positions (red cm) = even_positions (length colors)
         \<and> positions (green cm) = even_positions (length colors)
         \<and> positions (blue cm) = even_positions (length colors)
         \<and> increasing_0_1 (positions (red cm))
         \<and> increasing_0_1 (positions (green cm))
         \<and> increasing_0_1 (positions (blue cm))))"
proof (intro conjI impI)
  assume "length colors \<le> 1"
  then show "simple_cmap to_rgb colors c_under c_over c_bad name
        = Inl (ValueError ''Must specify at least two colors'')"
    by (simp add: simple_cmap_def)
next
  assume a: "2 \<le> length colors \<and> all_colors to_rgb colors \<and> all_colors to_rgb [c_bad, c_over, c_under]"
  then obtain cm where cm: "simple_cmap to_rgb colors c_under c_over c_bad name = Inr cm"
    "positions (red cm) = even_positions (length colors)"
    "positions (green cm) = even_positions (length colors)"
    "positions (blue cm) = even_positions (length colors)"
    using simple_cmap_ok[of colors to_rgb c_bad c_over c_under name] by blast
  from a have "increasing_0_1 (even_positions (length colors))"
    by (simp add: even_positions_increasing)
  with cm show "\<exists>cm. simple_cmap to_rgb colors c_under c_over c_bad name = Inr cm
         \<and> positions (red cm) = even_positions (length colors)
         \<and> positions (green cm) = even_positions (length colors)
         \<and> positions (blue cm) = even_positions (length colors)
         \<and> increasing_0_1 (positions (red cm))
         \<and> increasing_0_1 (positions (green cm))
         \<and> increasing_0_1 (positions (blue cm))"
    by simp
qed

text \<open>Witness for C7: one colour, and three colours.\<close>

theorem simple_cmap_needs_two_colors_witness:
  "length [white] \<le> 1
   \<and> simple_cmap to_rgb_triple [white] black grey grey ''none''
       = Inl (ValueError ''Must specify at least two colors'')
   \<and> 2 \<le> length [white, pure_red, black]
   \<and> all_colors to_rgb_triple [white, pure_red, black]
   \<and> all_colors to_rgb_triple [grey, grey, black]
   \<and> (\<exists>cm. simple_cmap to_rgb_triple [white, pure_red, black] black grey grey ''none'' = Inr cm
        \<and> positions (red cm) = [0, 1 / 2, 1]
        \<and> increasing_0_1 (positions (red cm)))"
proof -
  have a: "all_colors to_rgb_triple [white, pure_red, black]"
    "all_colors to_rgb_triple [grey, grey, black]"
    by (simp_all add: all_colors_def example_colors_ok)
  have e: "even_positions (length [white, pure_red, black]) = [0, 1 / 2, 1]"
    by (simp add: even_positions_def upt_rec)
  from simple_cmap_needs_two_colors
         [of "[white]" to_rgb_triple black grey grey "''none''"]
  have 1: "simple_cmap to_rgb_triple [white] black grey grey ''none''
       = Inl (ValueError ''Must specify at least two colors'')" by simp
  from simple_cmap_needs_two_colors
         [of "[white, pure_red, black]" to_rgb_triple black grey grey "''none''"] a
  have 2: "\<exists>cm. simple_cmap to_rgb_triple [white, pure_red, black] black grey grey ''none'' = Inr cm
        \<and> positions (red cm) = [0, 1 / 2, 1]
        \<and> increasing_0_1 (positions (red cm))"
    unfolding e by auto
  from 1 2 a show ?thesis by simp
qed

text \<open>
  C8. For two colours \<open>c0\<close> and \<open>c1\<close>, \<^verbatim>\<open>simple_cmap([c0, c1])\<close> puts
  \<open>c0\<close> at position 0 and \<open>c1\<close> at position 1 in every channel, and the colormap
  called at 0 and at 1 returns exactly these colours (with alpha 1).
\<close>

theorem simple_cmap_endpoints:
  assumes "to_rgb c0 = Inr (r0, g0, b0)" "to_rgb c1 = Inr (r1, g1, b1)"
    and "unit_rgb (r0, g0, b0)" "unit_rgb (r1, g1, b1)"
    and "all_colors to_rgb [c_bad, c_over, c_under]"
  shows "\<exists>cm. simple_cmap to_rgb [c0, c1] c_under c_over c_bad name = Inr cm
       \<and> red cm = [(0, r0, r0), (1, r1, r1)]
       \<and> green cm = [(0, g0, g0), (1, g1, g1)]
       \<and> blue cm = [(0, b0, b0), (1, b1, b1)]
       \<and> cmap_call cm 0 = Inr (r0, g0, b0, 1)
       \<and> cmap_call cm 1 = Inr (r1, g1, b1, 1)"
proof -
  obtain vb vo vu where conv: "to_rgb c_bad = Inr vb" "to_rgb c_over = Inr vo" "to_rgb c_under = Inr vu"
    using assms(5) by (auto simp: all_colors_def split: sum.splits)
  let ?cm = "\<lparr> cmap_name = name, red = [(0, r0, r0), (1, r1, r1)],
     green = [(0, g0, g0), (1, g1, g1)], blue = [(0, b0, b0), (1, b1, b1)],
     rgba_bad = Some vb, rgba_over = Some vo, rgba_under = Some vu \<rparr>"
  have cm: "simple_cmap to_rgb [c0, c1] c_under c_over c_bad name = Inr ?cm"
    using assms(1,2) conv
    by (simp add: simple_cmap_def set_bad_def set_over_def set_under_def
        LinearSegmentedColormap_def Let_def)
  obtain lr where lr: "create_lookup_table cmap_N [(0, r0, r0), (1, r1, r1)] = Inr lr"
    "lr ! 0 = r0" "lr ! (cmap_N - 1) = r1"
    using create_lookup_table_two_points[of r0 r1] assms(3,4)
    by (auto simp: unit_rgb_def clip01_unit)
  obtain lg where lg: "create_lookup_table cmap_N [(0, g0, g0), (1, g1, g1)] = Inr lg"
    "lg ! 0 = g0" "lg ! (cmap_N - 1) = g1"
    using create_lookup_table_two_points[of g0 g1] assms(3,4)
    by (auto simp: unit_rgb_def clip01_unit)
  obtain lb where lb: "create_lookup_table cmap_N [(0, b0, b0), (1, b1, b1)] = Inr lb"
    "lb ! 0 = b0" "lb ! (cmap_N - 1) = b1"
    using create_lookup_table_two_points[of b0 b1] assms(3,4)
    by (auto simp: unit_rgb_def clip01_unit)
  have "cmap_call ?cm 0 = Inr (r0, g0, b0, 1)"
    using lr lg lb by (simp add: cmap_call_def)
  moreover have "cmap_call ?cm 1 = Inr (r1, g1, b1, 1)"
    using lr lg lb by (simp add: cmap_call_def)
  ultimately show ?thesis using cm by simp
qed

text \<open>Witness for C8: the white to red colormap of the docstring.\<close>

theorem simple_cmap_endpoints_witness:
  "to_rgb_triple white = Inr (1, 1, 1) \<and> to_rgb_triple pure_red = Inr (1, 0, 0)
   \<and> unit_rgb (1, 1, 1) \<and> unit_rgb (1, 0, 0)
   \<and> all_colors to_rgb_triple [grey, grey, black]
   \<and> (\<exists>cm. simple_cmap to_rgb_triple [white, pure_red] black grey grey ''none'' = Inr cm
        \<and> green cm = [(0, 1, 1), (1, 0, 0)]
        \<and> cmap_call cm 0 = Inr (1, 1, 1, 1)
        \<and> cmap_call cm 1 = Inr (1, 0, 0, 1))"
proof -
  have h: "to_rgb_triple white = Inr (1, 1, 1)" "to_rgb_triple pure_red = Inr (1, 0, 0)"
    "unit_rgb (1, 1, 1)" "unit_rgb (1, 0, 0)"
    "all_colors to_rgb_triple [grey, grey, black]"
    by (simp_all add: to_rgb_triple_def unit_rgb_def white_def pure_red_def all_colors_def
        grey_def black_def)
  from simple_cmap_endpoints [OF h, of "''none''"] h show ?thesis by blast
qed

section \<open>Properties of the hierarchical-file functions\<close>

subsection \<open>Path names, lookups and updates\<close>

lemma split_slash_not_Nil [simp]: "split_slash s \<noteq> []"
  by (induction s) (auto split: list.splits)

lemma split_slash_no_slash: "CHR ''/'' \<notin> set k \<Longrightarrow> split_slash k = [k]"
  by (induction k) auto

lemma split_slash_append:
  "split_slash (a @ CHR ''/'' # b) = split_slash a @ split_slash b"
  by (induction a) (auto split: list.splits)

lemma components_simple_key: "simple_key k \<Longrightarrow> components k = [k]"
  by (simp add: components_def simple_key_def split_slash_no_slash)

lemma not_absolute_simple_key: "simple_key k \<Longrightarrow> \<not> is_absolute k"
  by (cases k) (auto simp: is_absolute_def simple_key_def)

lemma components_append_key:
  "simple_key k \<Longrightarrow> components (gs @ CHR ''/'' # k) = components gs @ [k]"
  by (simp add: components_def split_slash_append split_slash_no_slash simple_key_def)

lemma is_absolute_append: "is_absolute gs \<Longrightarrow> is_absolute (gs @ s)"
  by (cases gs) (auto simp: is_absolute_def)

lemma components_slash: "components ''/'' = []"
  by (simp add: components_def)

lemma is_absolute_slash: "is_absolute ''/''"
  by (simp add: is_absolute_def)

lemma map_of_replace_child_same:
  "map_of cs c = Some m \<Longrightarrow> map_of (replace_child c n cs) c = Some n"
  by (induction cs) (auto split: if_splits)

lemma map_of_replace_child_other:
  "k \<noteq> c \<Longrightarrow> map_of (replace_child c n cs) k = map_of cs k"
  by (induction cs) auto

lemma replace_child_twice:
  "replace_child c n' (replace_child c n cs) = replace_child c n' cs"
  by (induction cs) auto

lemma replace_child_same: "map_of cs c = Some n \<Longrightarrow> replace_child c n cs = cs"
  by (induction cs) (auto split: if_splits)

lemma replace_child_append_new:
  "map_of cs c = None \<Longrightarrow> replace_child c n (cs @ [(c, m)]) = cs @ [(c, n)]"
  by (induction cs) (auto split: if_splits)

lemma lookup_modify_at: "lookup (modify_at f p r) p = map_option f (lookup r p)"
proof (induction f p r rule: modify_at.induct)
  case (3 f c p cs)
  then show ?case by (auto split: option.splits simp: map_of_replace_child_same)
qed simp_all

lemma modify_at_twice: "modify_at g p (modify_at f p r) = modify_at (g \<circ> f) p r"
proof (induction f p r rule: modify_at.induct)
  case (3 f c p cs)
  then show ?case
    by (auto split: option.splits simp: map_of_replace_child_same replace_child_twice)
qed simp_all

lemma modify_at_id: "lookup r p = Some n \<Longrightarrow> f n = n \<Longrightarrow> modify_at f p r = r"
proof (induction f p r rule: modify_at.induct)
  case (3 f c p cs)
  then show ?case by (auto split: option.splits simp: replace_child_same)
qed simp_all

lemma modify_at_append: "modify_at f (p @ q) r = modify_at (modify_at f q) p r"
proof (induction p arbitrary: r)
  case Nil
  then show ?case by simp
next
  case (Cons c p)
  then show ?case by (cases r) (auto split: option.splits)
qed

lemma lookup_append: "lookup r (p @ q) = (case lookup r p of None \<Rightarrow> None | Some n \<Rightarrow> lookup n q)"
proof (induction p arbitrary: r)
  case Nil
  then show ?case by simp
next
  case (Cons c p)
  then show ?case by (cases r) (auto split: option.splits)
qed

lemma create_at_new:
  "lookup r p = Some (Group cs) \<Longrightarrow> map_of cs k = None \<Longrightarrow>
     create_at r (p @ [k]) new = Inr (modify_at (\<lambda>_. Group (cs @ [(k, new)])) p r)"
proof (induction p arbitrary: r)
  case Nil
  then show ?case by simp
next
  case (Cons c p)
  then show ?case by (cases r) (auto split: option.splits)
qed

lemma names_group_norm:
  assumes "names_group gs p"
  shows "is_absolute (if gs = [] then ''/'' else gs)"
    and "components (if gs = [] then ''/'' else gs) = p"
  using assms by (auto simp: names_group_def is_absolute_def components_slash)

lemma names_group_child:
  assumes "is_absolute gs" "components gs = p" "simple_key k"
  shows "names_group (gs @ ''/'' @ k) (p @ [k])"
  using assms by (simp add: names_group_def is_absolute_append components_append_key)

lemma names_group_keep:
  assumes "is_absolute gs" "components gs = p"
  shows "names_group gs p"
  using assms by (simp add: names_group_def)

lemma getitem_group_ok:
  assumes "is_absolute gs" "components gs = p" "lookup r p = Some (Group cs)"
  shows "getitem_group r h gs = Inr p"
  using assms by (simp add: getitem_group_def resolve_def)

lemma create_object_new:
  assumes "simple_key k" "lookup r p = Some (Group cs)" "k \<notin> fst ` set cs"
  shows "create_object r p k new = Inr (modify_at (\<lambda>_. Group (cs @ [(k, new)])) p r)"
proof -
  from assms(3) have "map_of cs k = None" by (simp add: map_of_eq_None_iff)
  from create_at_new[OF assms(2) this] assms(1) show ?thesis
    by (simp add: create_object_def resolve_def components_simple_key not_absolute_simple_key)
qed

lemma const_comp: "(\<lambda>_. a) \<circ> f = (\<lambda>_. a)"
  by (simp add: comp_def)

lemma fill_new_group:
  assumes "lookup r p = Some (Group cs)" "k \<notin> fst ` set cs"
  shows "modify_at (\<lambda>_. Group ds) (p @ [k]) (modify_at (\<lambda>_. Group (cs @ [(k, Group [])])) p r)
       = modify_at (\<lambda>_. Group (cs @ [(k, Group ds)])) p r"
proof -
  from assms(2) have n: "map_of cs k = None" by (simp add: map_of_eq_None_iff)
  have "modify_at (\<lambda>_. Group ds) [k] (Group (cs @ [(k, Group [])])) = Group (cs @ [(k, Group ds)])"
    using n by (simp add: map_add_def replace_child_append_new)
  then show ?thesis
    by (simp add: modify_at_append modify_at_twice comp_def)
qed

lemma make_h5_tree_main:
  "wf_items d \<Longrightarrow> storable_items storable d \<Longrightarrow> lookup r p = Some (Group cs)
     \<Longrightarrow> fst ` set d \<inter> fst ` set cs = {} \<Longrightarrow> names_group gs p
     \<Longrightarrow> make_h5_tree storable d h gs r
         = Returns (modify_at (\<lambda>_. Group (cs @ h5_items d)) p r)"
proof (induction storable d h gs r arbitrary: p cs rule: make_h5_tree.induct)
  case (1 storable h gs r)
  then show ?case by (simp add: modify_at_id)
next
  case (2 storable key d rest h gs r)
  let ?gs = "if gs = [] then ''/'' else gs"
  from "2.prems"(1) have key: "simple_key key" "key \<notin> fst ` set rest"
    and wf: "wf_items d" "wf_items rest" by simp_all
  from "2.prems"(2) have st: "storable_items storable d" "storable_items storable rest"
    by simp_all
  from "2.prems"(4) have new: "key \<notin> fst ` set cs" and disj: "fst ` set rest \<inter> fst ` set cs = {}"
    by auto
  note abs = names_group_norm[OF "2.prems"(5)]
  have g: "getitem_group r h ?gs = Inr p"
    using getitem_group_ok[OF abs "2.prems"(3)] .
  let ?r1 = "modify_at (\<lambda>_. Group (cs @ [(key, Group [])])) p r"
  have c: "create_group r p key = Inr ?r1"
    unfolding create_group_def using create_object_new[OF key(1) "2.prems"(3) new] .
  from new have nk: "map_of cs key = None" by (simp add: map_of_eq_None_iff)
  have l1: "lookup ?r1 (p @ [key]) = Some (Group [])"
    using "2.prems"(3) nk
    by (simp add: lookup_append lookup_modify_at map_add_def)
  have inner: "make_h5_tree storable d p (?gs @ ''/'' @ key) ?r1
      = Returns (modify_at (\<lambda>_. Group ([] @ h5_items d)) (p @ [key]) ?r1)"
    by (rule "2.IH"(1)[OF refl g c wf(1) st(1) l1 _ names_group_child[OF abs key(1)]]) simp
  let ?r2 = "modify_at (\<lambda>_. Group (cs @ [(key, Group (h5_items d))])) p r"
  have r2: "modify_at (\<lambda>_. Group ([] @ h5_items d)) (p @ [key]) ?r1 = ?r2"
    using fill_new_group[OF "2.prems"(3) new] by simp
  have l2: "lookup ?r2 p = Some (Group (cs @ [(key, Group (h5_items d))]))"
    using "2.prems"(3) by (simp add: lookup_modify_at)
  have d2: "fst ` set rest \<inter> fst ` set (cs @ [(key, Group (h5_items d))]) = {}"
    using disj key(2) by auto
  have "make_h5_tree storable rest h ?gs ?r2
      = Returns (modify_at (\<lambda>_. Group ((cs @ [(key, Group (h5_items d))]) @ h5_items rest)) p ?r2)"
    using "2.IH"(2)[OF refl g c _ wf(2) st(2) l2 d2 names_group_keep[OF abs]] inner r2 by simp
  then show ?case
    using g c inner r2 by (simp add: modify_at_twice const_comp)
next
  case (3 storable key v rest h gs r)
  let ?gs = "if gs = [] then ''/'' else gs"
  from "3.prems"(1) have key: "simple_key key" "key \<notin> fst ` set rest"
    and wf: "wf_items rest" by simp_all
  from "3.prems"(2) have st: "storable v" "storable_items storable rest" by simp_all
  from "3.prems"(4) have new: "key \<notin> fst ` set cs" and disj: "fst ` set rest \<inter> fst ` set cs = {}"
    by auto
  note abs = names_group_norm[OF "3.prems"(5)]
  have g: "getitem_group r h ?gs = Inr p"
    using getitem_group_ok[OF abs "3.prems"(3)] .
  let ?r1 = "modify_at (\<lambda>_. Group (cs @ [(key, Dataset v)])) p r"
  have c: "create_dataset storable r p key v = Inr ?r1"
    using create_object_new[OF key(1) "3.prems"(3) new] st(1) by (simp add: create_dataset_def)
  have l1: "lookup ?r1 p = Some (Group (cs @ [(key, Dataset v)]))"
    using "3.prems"(3) by (simp add: lookup_modify_at)
  have d1: "fst ` set rest \<inter> fst ` set (cs @ [(key, Dataset v)]) = {}"
    using disj key(2) by auto
  have "make_h5_tree storable rest h ?gs ?r1
      = Returns (modify_at (\<lambda>_. Group ((cs @ [(key, Dataset v)]) @ h5_items rest)) p ?r1)"
    using "3.IH"[OF refl g c wf st(2) l1 d1 names_group_keep[OF abs]] .
  then show ?case
    using g c by (simp add: modify_at_twice const_comp)
qed

lemma read_dict_h5_items: "read_dict (h5_items d) = d"
  by (induction d rule: h5_items.induct) simp_all

lemma map_fst_h5_items: "map fst (h5_items d) = map fst d"
  by (induction d rule: h5_items.induct) simp_all

lemma map_of_h5_items: "map_of (h5_items d) key = map_option h5_of (map_of d key)"
  by (induction d rule: h5_items.induct) (simp_all add: h5_of_def)

lemma iterator_h5_items: "h5py_dataset_iterator (h5_items d) prefix = leaf_paths d prefix"
proof (induction d prefix rule: leaf_paths.induct)
  case (1 d prefix)
  have "map (\<lambda>key. case map_of (h5_items d) key of
           None \<Rightarrow> []
         | Some (Dataset v) \<Rightarrow> [(prefix @ ''/'' @ key, v)]
         | Some (Group cs') \<Rightarrow> h5py_dataset_iterator cs' (prefix @ ''/'' @ key))
        (sort (map fst d))
    = map (\<lambda>key. case map_of d key of
           None \<Rightarrow> []
         | Some (Leaf v) \<Rightarrow> [(prefix @ ''/'' @ key, v)]
         | Some (Dict d') \<Rightarrow> leaf_paths d' (prefix @ ''/'' @ key))
        (sort (map fst d))"
  proof (rule map_cong[OF refl])
    fix key assume "key \<in> set (sort (map fst d))"
    with "1.IH" show "(case map_of (h5_items d) key of
           None \<Rightarrow> []
         | Some (Dataset v) \<Rightarrow> [(prefix @ ''/'' @ key, v)]
         | Some (Group cs') \<Rightarrow> h5py_dataset_iterator cs' (prefix @ ''/'' @ key))
      = (case map_of d key of
           None \<Rightarrow> []
         | Some (Leaf v) \<Rightarrow> [(prefix @ ''/'' @ key, v)]
         | Some (Dict d') \<Rightarrow> leaf_paths d' (prefix @ ''/'' @ key))"
      by (auto simp: map_of_h5_items h5_of_def split: option.splits pyval.splits)
  qed
  then show ?case
    by (subst h5py_dataset_iterator.simps, subst leaf_paths.simps)
       (simp only: keys_def map_fst_h5_items)
qed

lemma make_h5_tree_fresh:
  "wf_items d \<Longrightarrow> storable_items storable d
     \<Longrightarrow> make_h5_tree storable d [] [] (Group []) = Returns (Group (h5_items d))"
  using make_h5_tree_main[of d storable "Group []" "[]" "[]" "[]" "[]"]
  by (simp add: names_group_def)

lemma wf_items_distinct: "wf_items d \<Longrightarrow> distinct (map fst d)"
  by (induction d rule: wf_items.induct) simp_all

lemma map_of_wf_items: "wf_items d \<Longrightarrow> (key, val) \<in> set d \<Longrightarrow> map_of d key = Some val"
  by (simp add: wf_items_distinct)

lemma lookup_child:
  assumes "lookup r p = Some (Group cs)"
  shows "lookup r (p @ [key]) = map_of cs key"
  using assms by (simp add: lookup_append split: option.splits)

lemmas h5_eval = getitem_group_def resolve_def components_def is_absolute_def
  create_group_def create_dataset_def create_object_def all_storable_def

lemma clash_dict_result:
  "make_h5_tree all_storable clash_dict [] [] (Group [])
     = Raises (ValueError ''component of the path is not a group'') (Group [(''a'', Dataset 1)])"
  by (simp add: clash_dict_def h5_eval)

lemma absolute_key_dict_result:
  "make_h5_tree all_storable absolute_key_dict [] [] (Group [])
     = Returns (Group [(''g'', Group [(''x'', Group [(''y'', Dataset 1)])]), (''x'', Group [])])"
  by (simp add: absolute_key_dict_def h5_eval)

lemma slash_key_dict_result:
  "make_h5_tree all_storable slash_key_dict [] [] (Group []) = Returns (Group [(''a'', Group [(''b'', Dataset 1)])])"
  by (simp add: slash_key_dict_def h5_eval)

lemma nested_dict_result:
  "make_h5_tree all_storable nested_dict [] [] (Group []) = Returns (Group [(''a'', Group [(''b'', Dataset 1)])])"
  by (simp add: nested_dict_def h5_eval)

lemma wf_example_dict: "wf_items example_dict"
  by (simp add: example_dict_def simple_key_def)

lemma storable_example_dict: "storable_items all_storable example_dict"
  by (simp add: example_dict_def all_storable_def)

lemma none_dict_result:
  "make_h5_tree not_None none_dict [] [] (Group [])
     = Raises (TypeError ''Object dtype has no native HDF5 equivalent'') (Group [])"
  by (simp add: none_dict_def not_None_def h5_eval)

lemma leaf_paths_example: "leaf_paths example_dict [] = [(''/a'', 1), (''/b'', 3), (''/g/x'', 2)]"
  by (simp add: example_dict_def leaf_paths.simps)

lemma show_loop_append:
  "show_loop R hObj ii (xs @ ys) = show_loop R hObj ii xs @ show_loop R hObj (ii + length xs) ys"
  by (induction xs arbitrary: ii) simp_all

lemma show_item_Group:
  "show_item R ii val (H5item (Group g))
     = [str_nat (ii + 1) @ ''. '' @ val @ '':----------------'',
        str_nat (ii + 1) @ ''. '' @ val @ '':   type='' @ h5py_Group_type]"
  by (simp add: show_item_def)

lemma example_group_iter: "hobj_iter (H5obj example_group) = [''a'', ''b'']"
  by (simp add: hobj_iter_def keys_def example_group_def)

subsection \<open>Claims about make_h5_tree, write_dict_to_h5 and h5py_dataset_iterator\<close>

text \<open>
  C1, as amended. For a dict whose keys, at every level, are plain names (not empty, no slash,
  not \<^verbatim>\<open>.\<close>) and whose leaves are data h5py can store,
  \<^verbatim>\<open>make_h5_tree\<close> called with
  \<^verbatim>\<open>group_string\<close> empty or the absolute name of an existing group that has none
  of the top-level keys returns, and the group then holds, after the links it had, one link
  per entry in the order of the entries: for a value that is a dict a new group under that
  key, filled in the same way from the nested dict, otherwise a dataset under that key that
  holds the value. Nothing else in the file changes.
\<close>

theorem make_h5_tree_mirrors_dict:
  assumes "wf_items dict_obj"
    and "storable_items storable dict_obj"
    and "lookup froot p = Some (Group cs)"
    and "fst ` set dict_obj \<inter> fst ` set cs = {}"
    and "names_group group_string p"
  shows "\<exists>froot'. make_h5_tree storable dict_obj h group_string froot = Returns froot'
       \<and> froot' = modify_at (\<lambda>_. Group (cs @ h5_items dict_obj)) p froot
       \<and> lookup froot' p = Some (Group (cs @ h5_items dict_obj))
       \<and> (\<forall>(key, val) \<in> set dict_obj.
            lookup froot' (p @ [key])
              = Some (case val of Dict d \<Rightarrow> Group (h5_items d) | Leaf v \<Rightarrow> Dataset v))"
proof -
  let ?r = "modify_at (\<lambda>_. Group (cs @ h5_items dict_obj)) p froot"
  have l: "lookup ?r p = Some (Group (cs @ h5_items dict_obj))"
    using assms(3) by (simp add: lookup_modify_at)
  have "lookup ?r (p @ [key]) = Some (case val of Dict d \<Rightarrow> Group (h5_items d) | Leaf v \<Rightarrow> Dataset v)"
    if kv: "(key, val) \<in> set dict_obj" for key val
  proof -
    from kv assms(4) have "key \<notin> fst ` set cs" by force
    then have "map_of cs key = None" by (simp add: map_of_eq_None_iff)
    moreover have "map_of (h5_items dict_obj) key = Some (h5_of val)"
      using map_of_wf_items[OF assms(1) kv] by (simp add: map_of_h5_items)
    ultimately show ?thesis
      by (simp add: lookup_child[OF l] map_add_def h5_of_def)
  qed
  with l make_h5_tree_main[OF assms, of h] show ?thesis by auto
qed

text \<open>Witness for C1: writing a nested dict into a group of a file that has content.\<close>

theorem make_h5_tree_mirrors_dict_witness:
  "wf_items example_dict
   \<and> storable_items all_storable example_dict
   \<and> lookup example_file [''old''] = Some (Group [(''data'', Dataset 7)])
   \<and> fst ` set example_dict \<inter> fst ` set [(''data'', Dataset (7::nat))] = {}
   \<and> names_group ''/old'' [''old'']
   \<and> make_h5_tree all_storable example_dict [] ''/old'' example_file
      = Returns (Group [(''old'', Group [(''data'', Dataset 7), (''a'', Dataset 1),
           (''g'', Group [(''x'', Dataset 2), (''e'', Group [])]), (''b'', Dataset 3)])])"
proof -
  have 1: "lookup example_file [''old''] = Some (Group [(''data'', Dataset 7)])"
    by (simp add: example_file_def)
  have 2: "fst ` set example_dict \<inter> fst ` set [(''data'', Dataset (7::nat))] = {}"
    by (simp add: example_dict_def)
  have 3: "names_group ''/old'' [''old'']"
    by (simp add: names_group_def is_absolute_def components_def)
  have 4: "modify_at (\<lambda>_. Group ([(''data'', Dataset 7)] @ h5_items example_dict)) [''old''] example_file
      = Group [(''old'', Group [(''data'', Dataset 7), (''a'', Dataset 1),
           (''g'', Group [(''x'', Dataset 2), (''e'', Group [])]), (''b'', Dataset 3)])]"
    by (simp add: example_file_def example_dict_def)
  from make_h5_tree_mirrors_dict [OF wf_example_dict storable_example_dict 1 2 3, of "[]"]
    wf_example_dict storable_example_dict 1 2 3
  show ?thesis unfolding 4 by blast
qed

text \<open>
  Counterexample to C1 as stated (every dict of string keys). With the keys \<^verbatim>\<open>a\<close>
  (a leaf) and \<^verbatim>\<open>a/b\<close> the call raises after the first entry and the second entry
  is never written. With the nested key \<^verbatim>\<open>/x\<close> the call returns, but the new group
  is created at the root and stays empty, while the nested dict is written into the sibling
  group \<^verbatim>\<open>/g/x\<close>. With the leaf \<^verbatim>\<open>None\<close>, which h5py cannot store, the
  call raises TypeError and no dataset is written.
\<close>

theorem make_h5_tree_path_keys_counterexample:
  "raised (make_h5_tree all_storable clash_dict [] [] (Group [])) \<noteq> None
   \<and> final_state (make_h5_tree all_storable clash_dict [] [] (Group [])) = Group [(''a'', Dataset 1)]
   \<and> make_h5_tree all_storable absolute_key_dict [] [] (Group [])
      = Returns (Group [(''g'', Group [(''x'', Group [(''y'', Dataset 1)])]), (''x'', Group [])])
   \<and> make_h5_tree not_None none_dict [] [] (Group [])
      = Raises (TypeError ''Object dtype has no native HDF5 equivalent'') (Group [])"
  by (simp add: clash_dict_result absolute_key_dict_result none_dict_result)

text \<open>
  C5. When the path exists, \<^verbatim>\<open>write_dict_to_h5\<close> with the default mode
  \<^verbatim>\<open>'w-'\<close> raises FileExistsError, and the file system, the existing file included,
  is as before.
\<close>

theorem write_dict_to_h5_existing_path:
  assumes "path_save \<in> dom fs"
  shows "write_dict_to_h5 storable fs path_save input_dict W_minus
       = Raises (FileExistsError ''Unable to create file (file exists)'') fs"
  using assms by (simp add: write_dict_to_h5_def h5py_File_def)

text \<open>Witness for C5: writing to the path of an existing HDF5 file.\<close>

theorem write_dict_to_h5_existing_path_witness:
  "''data.h5'' \<in> dom example_fs
   \<and> write_dict_to_h5 all_storable example_fs ''data.h5'' example_dict W_minus
      = Raises (FileExistsError ''Unable to create file (file exists)'') example_fs
   \<and> final_state (write_dict_to_h5 all_storable example_fs ''data.h5'' example_dict W_minus)
        ''data.h5''
      = Some (H5File example_file)"
proof -
  have d: "''data.h5'' \<in> dom example_fs" by (simp add: example_fs_def)
  from write_dict_to_h5_existing_path [OF d, of all_storable example_dict] d show ?thesis
    by (simp add: example_fs_def)
qed

text \<open>
  C6, as amended. For a dict whose keys, at every level, are plain names, and whose leaves
  are data h5py can store, \<^verbatim>\<open>write_dict_to_h5\<close> (mode \<^verbatim>\<open>'w'\<close>, or \<^verbatim>\<open>'w-'\<close> on a path that does
  not exist) returns and leaves a file that is the 1:1 image of the dict; the matching reader
  gives the dict back, and \<^verbatim>\<open>h5py_dataset_iterator\<close> on the file yields exactly the
  leaves of the dict, each with the path made of its keys.
\<close>

theorem write_then_read_roundtrip:
  assumes "wf_items input_dict" and "storable_items storable input_dict"
    and "mode = W \<or> path_save \<notin> dom fs"
  shows "\<exists>hf. write_dict_to_h5 storable fs path_save input_dict mode
                = Returns (fs(path_save \<mapsto> H5File (Group hf)))
       \<and> hf = h5_items input_dict
       \<and> read_dict hf = input_dict
       \<and> h5py_dataset_iterator hf [] = leaf_paths input_dict []"
proof -
  from assms(3) have "h5py_File fs path_save mode = Inr (Group [])"
    by (cases mode) (auto simp: h5py_File_def)
  with make_h5_tree_fresh[OF assms(1,2)]
  have "write_dict_to_h5 storable fs path_save input_dict mode
      = Returns (fs(path_save \<mapsto> H5File (Group (h5_items input_dict))))"
    by (simp add: write_dict_to_h5_def)
  then show ?thesis
    by (simp add: read_dict_h5_items iterator_h5_items)
qed

text \<open>Witness for C6: a nested dict written to a new file.\<close>

theorem write_then_read_roundtrip_witness:
  "wf_items example_dict \<and> storable_items all_storable example_dict
   \<and> ''new.h5'' \<notin> dom example_fs
   \<and> (\<exists>hf. write_dict_to_h5 all_storable example_fs ''new.h5'' example_dict W_minus
              = Returns (example_fs(''new.h5'' \<mapsto> H5File (Group hf)))
        \<and> read_dict hf = example_dict
        \<and> h5py_dataset_iterator hf [] = [(''/a'', 1), (''/b'', 3), (''/g/x'', 2)])"
proof -
  have d: "W_minus = W \<or> ''new.h5'' \<notin> dom example_fs" by (simp add: example_fs_def)
  from write_then_read_roundtrip [OF wf_example_dict storable_example_dict d]
    wf_example_dict storable_example_dict d
  show ?thesis by (auto simp: leaf_paths_example)
qed

text \<open>
  Counterexample to C6 as stated: the dict with the single key \<^verbatim>\<open>a/b\<close> and the dict
  with the key \<^verbatim>\<open>a\<close> holding a dict with the key \<^verbatim>\<open>b\<close> differ, and are
  written to the same file; no reader gives both back, and the matching reader gives the
  second.
\<close>

theorem roundtrip_path_keys_counterexample:
  "slash_key_dict \<noteq> nested_dict
   \<and> write_dict_to_h5 all_storable Map.empty ''new.h5'' slash_key_dict W_minus
      = Returns [''new.h5'' \<mapsto> H5File (Group [(''a'', Group [(''b'', Dataset 1)])])]
   \<and> write_dict_to_h5 all_storable Map.empty ''new.h5'' nested_dict W_minus
      = Returns [''new.h5'' \<mapsto> H5File (Group [(''a'', Group [(''b'', Dataset 1)])])]
   \<and> read_dict [(''a'', Group [(''b'', Dataset 1)])] \<noteq> slash_key_dict"
  by (simp add: write_dict_to_h5_def h5py_File_def slash_key_dict_result nested_dict_result)
     (simp add: slash_key_dict_def nested_dict_def)

subsection \<open>Claim about show_group_items\<close>

text \<open>
  C9. For an item of \<^verbatim>\<open>hObj\<close> that is an h5py group, at index \<open>ii\<close> of the
  iteration, \<^verbatim>\<open>show_group_items\<close> prints two lines, one after the other: the group
  marker line and a \<^verbatim>\<open>type=\<close> line, between the lines of the items before and the
  lines of the items after.
\<close>

theorem show_group_items_Group_two_lines:
  assumes "ii < length (hobj_iter hObj)"
    and "hobj_getitem hObj (hobj_iter hObj ! ii) = Some (H5item (Group g))"
  shows "show_group_items R hObj
       = show_loop R hObj 0 (take ii (hobj_iter hObj))
         @ [str_nat (ii + 1) @ ''. '' @ (hobj_iter hObj ! ii) @ '':----------------'',
            str_nat (ii + 1) @ ''. '' @ (hobj_iter hObj ! ii) @ '':   type='' @ h5py_Group_type]
         @ show_loop R hObj (ii + 1) (drop (ii + 1) (hobj_iter hObj))"
proof -
  from assms(1) have "hobj_iter hObj
      = take ii (hobj_iter hObj) @ (hobj_iter hObj ! ii) # drop (ii + 1) (hobj_iter hObj)"
    by (simp add: id_take_nth_drop)
  then have "show_group_items R hObj
      = show_loop R hObj 0 (take ii (hobj_iter hObj) @ (hobj_iter hObj ! ii) # drop (ii + 1) (hobj_iter hObj))"
    by (simp add: show_group_items_def)
  also have "\<dots> = show_loop R hObj 0 (take ii (hobj_iter hObj))
         @ show_item R ii (hobj_iter hObj ! ii) (H5item (Group g))
         @ show_loop R hObj (ii + 1) (drop (ii + 1) (hobj_iter hObj))"
    using assms by (simp add: show_loop_append min_def)
  finally show ?thesis by (simp add: show_item_Group)
qed

text \<open>Witness for C9: a file with a group and a dataset at the top level.\<close>

theorem show_group_items_Group_two_lines_witness:
  "0 < length (hobj_iter (H5obj example_group))
   \<and> hobj_getitem (H5obj example_group) (hobj_iter (H5obj example_group) ! 0)
       = Some (H5item (Group [(''z'', Dataset 2)]))
   \<and> show_group_items example_repr (H5obj example_group)
       = [''1. a:----------------'', ''1. a:   type='' @ h5py_Group_type,
          ''2. b:   shape=() , dtype=int64'']"
proof -
  have 1: "0 < length (hobj_iter (H5obj example_group))"
    by (simp add: example_group_iter)
  have 2: "hobj_getitem (H5obj example_group) (hobj_iter (H5obj example_group) ! 0)
       = Some (H5item (Group [(''z'', Dataset 2)]))"
    by (simp add: example_group_iter) (simp add: hobj_getitem_def example_group_def)
  have 3: "show_loop example_repr (H5obj example_group) (0 + 1)
             (drop (0 + 1) (hobj_iter (H5obj example_group)))
       = [''2. b:   shape=() , dtype=int64'']"
    by (simp add: example_group_iter)
       (simp add: hobj_getitem_def example_group_def show_item_def example_repr_def)
  from show_group_items_Group_two_lines [OF 1 2, of example_repr] 1 2 show ?thesis
    unfolding 3 by (simp add: example_group_iter)
qed

end
